theory Spec2Isabelle
  imports Main "HOL-Library.Sublist"
begin

section \<open>Errors and strings\<close>

text \<open>
  Go errors as values. \<open>ErrNotExist\<close> is an operating-system error for which
  \<open>os.IsNotExist\<close> holds, \<open>ErrOS\<close> any other error of the operating system or of the
  container runtime, \<open>ErrNew\<close> is \<open>errors.New\<close>, \<open>Errorf\<close> is \<open>fmt.Errorf\<close> (format and
  arguments kept apart, so that \<open>%q\<close> needs no rendering), \<open>Wrap\<close> and \<open>Wrapf\<close> are those of
  \<open>github.com/pkg/errors\<close>.
\<close>

datatype error =
    ErrNotExist string
  | ErrOS string
  | ErrNew string
  | Errorf string "string list"
  | Wrap error string
  | Wrapf error string "string list"

fun IsNotExist :: "error \<Rightarrow> bool" where
  "IsNotExist (ErrNotExist p) = True"
| "IsNotExist e = False"

text \<open>
  \<open>strings.TrimSpace\<close> and \<open>bytes.TrimSpace\<close> on ASCII text: the white space of Go's ASCII
  table (tab, line feed, vertical tab, form feed, carriage return, space) is cut from both
  ends. Strings are byte lists; white space beyond ASCII is outside this model.
\<close>

definition isSpace :: "char \<Rightarrow> bool" where
  "isSpace c = (c \<in> set [CHR 0x09, CHR 0x0A, CHR 0x0B, CHR 0x0C, CHR 0x0D, CHR 0x20])"

definition TrimSpace :: "string \<Rightarrow> string" where
  "TrimSpace s = rev (dropWhile isSpace (rev (dropWhile isSpace s)))"

text \<open>
  \<open>strings.SplitN(s, sep, n)\<close> for a separator of one character and \<open>n \<ge> 0\<close>: at most
  \<open>n\<close> pieces, the last one the unsplit rest.
\<close>

fun SplitN :: "string \<Rightarrow> char \<Rightarrow> nat \<Rightarrow> string list" where
  "SplitN s sep 0 = []"
| "SplitN s sep (Suc 0) = [s]"
| "SplitN s sep (Suc (Suc n)) =
     (if sep \<in> set s
      then takeWhile (\<lambda>c. c \<noteq> sep) s # SplitN (tl (dropWhile (\<lambda>c. c \<noteq> sep) s)) sep (Suc n)
      else [s])"

text \<open>\<open>fmt.Sprintf\<close> for formats whose only verb is \<open>%s\<close>.\<close>

fun Sprintf :: "string \<Rightarrow> string list \<Rightarrow> string" where
  "Sprintf [] args = []"
| "Sprintf [c] args = [c]"
| "Sprintf (c # d # fmt) args =
     (if c = CHR ''%'' \<and> d = CHR ''s''
      then (case args of [] \<Rightarrow> c # d # Sprintf fmt args | a # args' \<Rightarrow> a @ Sprintf fmt args')
      else c # Sprintf (d # fmt) args)"

text \<open>The verb \<open>%d\<close> of \<open>fmt.Sprintf\<close> on an integer.\<close>

function digits :: "nat \<Rightarrow> string" where
  "digits n = (if n < 10 then [char_of (48 + n)] else digits (n div 10) @ [char_of (48 + n mod 10)])"
  by pat_completeness auto
termination
  by (relation "measure id") auto

declare digits.simps [simp del]

definition Itoa :: "int \<Rightarrow> string" where
  "Itoa i = (if i < 0 then CHR ''-'' # digits (nat (- i)) else digits (nat i))"

section \<open>The file system\<close>

text \<open>
  A path holds a regular file with its contents, a directory, or an entry that cannot be
  accessed; an absent path is \<open>None\<close>.
\<close>

datatype node = File string | Dir | Denied

type_synonym fs = "string \<Rightarrow> node option"

definition ReadFile :: "fs \<Rightarrow> string \<Rightarrow> error + string" where
  "ReadFile fs p = (case fs p of
       None \<Rightarrow> Inl (ErrNotExist p)
     | Some (File c) \<Rightarrow> Inr c
     | Some Dir \<Rightarrow> Inl (ErrOS ''is a directory'')
     | Some Denied \<Rightarrow> Inl (ErrOS ''permission denied''))"

definition Stat :: "fs \<Rightarrow> string \<Rightarrow> error option" where
  "Stat fs p = (case fs p of
       None \<Rightarrow> Some (ErrNotExist p)
     | Some Denied \<Rightarrow> Some (ErrOS ''permission denied'')
     | Some n \<Rightarrow> None)"

definition below :: "string \<Rightarrow> string \<Rightarrow> bool" where
  "below p q = (q = p \<or> prefix (p @ ''/'') q)"

text \<open>
  \<open>os.RemoveAll\<close>: the path and everything below it is gone. Its only caller discards the
  error it returns; the call is taken at its documented effect.
\<close>

definition RemoveAll :: "fs \<Rightarrow> string \<Rightarrow> fs" where
  "RemoveAll fs p = (\<lambda>q. if below p q then None else fs q)"

section \<open>The world outside the process\<close>

record mount_point =
  Source :: string
  Destination :: string

record container_json =
  Binds :: "string list"
  Mounts :: "mount_point list"

datatype wait_result = WaitErr "error option" | WaitStatus int

text \<open>
  What the routines take from outside: the path functions of \<open>path/filepath\<close>, the
  package variable \<open>verbose\<close> and the function \<open>SetDefaultEnv\<close> (both declared elsewhere in
  the package), the failures of directory creation and file writing, the answers of the
  Docker client, the clock, and the external commands: a command runs in a directory on a
  file system and gives its error, its combined output and the file system it leaves.
\<close>

record world =
  filepath_Join :: "string \<Rightarrow> string \<Rightarrow> string"
  filepath_Dir :: "string \<Rightarrow> string"
  filepath_Base :: "string \<Rightarrow> string"
  verbose :: bool
  SetDefaultEnv :: "(string \<Rightarrow> string) \<Rightarrow> string \<Rightarrow> string \<Rightarrow> (string \<Rightarrow> string)"
  mkdir_err :: "string \<Rightarrow> error option"
  write_err :: "string \<Rightarrow> string \<Rightarrow> error option"
  NewClient :: "error option"
  ContainerInspect :: "string \<Rightarrow> error + container_json"
  ImagePull :: "string \<Rightarrow> error + (string \<times> error option)"
  ContainerCreate :: "string \<Rightarrow> string \<Rightarrow> string list \<Rightarrow> string \<Rightarrow> error + string"
  ContainerStart :: "string \<Rightarrow> error option"
  ContainerWait :: "string \<Rightarrow> wait_result"
  ContainerLogs :: "string \<Rightarrow> error + (string \<times> error option)"
  Now_Unix :: int
  run_cmd :: "string \<Rightarrow> string list \<Rightarrow> fs \<Rightarrow> error option \<times> string \<times> fs"

definition MkdirAll :: "world \<Rightarrow> fs \<Rightarrow> string \<Rightarrow> error + fs" where
  "MkdirAll w fs p = (case fs p of
       Some Dir \<Rightarrow> Inr fs
     | Some (File c) \<Rightarrow> Inl (ErrOS ''not a directory'')
     | Some Denied \<Rightarrow> Inl (ErrOS ''permission denied'')
     | None \<Rightarrow> (case mkdir_err w p of Some e \<Rightarrow> Inl e | None \<Rightarrow> Inr (fs(p \<mapsto> Dir))))"

definition WriteFile :: "world \<Rightarrow> fs \<Rightarrow> string \<Rightarrow> string \<Rightarrow> error + fs" where
  "WriteFile w fs p c = (case fs p of
       Some Dir \<Rightarrow> Inl (ErrOS ''is a directory'')
     | Some Denied \<Rightarrow> Inl (ErrOS ''permission denied'')
     | _ \<Rightarrow> (case write_err w p c of Some e \<Rightarrow> Inl e | None \<Rightarrow> Inr (fs(p \<mapsto> File c))))"

section \<open>Host path resolution\<close>

text \<open>The two loops of \<open>hostMountPoint\<close>, each returning at its first match.\<close>

fun scan_binds :: "string list \<Rightarrow> string \<Rightarrow> string option" where
  "scan_binds [] path = None"
| "scan_binds (bind # binds) path =
     (let ps = SplitN bind CHR '':'' 2
      in if length ps = 2 \<and> ps ! 1 = path then Some (ps ! 0) else scan_binds binds path)"

fun scan_mounts :: "mount_point list \<Rightarrow> string \<Rightarrow> string option" where
  "scan_mounts [] path = None"
| "scan_mounts (mount # mounts) path =
     (if Destination mount = path then Some (Source mount) else scan_mounts mounts path)"

definition hostMountPoint :: "world \<Rightarrow> string \<Rightarrow> string \<Rightarrow> error + string" where
  "hostMountPoint w cid path =
     (case ContainerInspect w cid of
        Inl err \<Rightarrow> Inl (Wrapf err ''failed to inspect container %q'' [cid])
      | Inr c \<Rightarrow>
          (case scan_binds (Binds c) path of
             Some src \<Rightarrow> Inr src
           | None \<Rightarrow>
               (case scan_mounts (Mounts c) path of
                  Some src \<Rightarrow> Inr src
                | None \<Rightarrow>
                    Inl (Errorf ''couldn't find host mountpoint of %q on container %q''
                           [path, cid]))))"

section \<open>Process state and observable actions\<close>

text \<open>
  Every call the routines make to the outside is recorded, in order: file reads, directory
  creation, \<open>os.Stat\<close> (with the error it returned), \<open>os.RemoveAll\<close>, file writes (with the
  contents and whether the write succeeded), log lines, the calls to the Docker client, and the external commands
  (with working directory, arguments and whether the command succeeded).
\<close>

datatype event =
    ReadFileEv string
  | MkdirAllEv string
  | StatEv string "error option"
  | RemoveAllEv string
  | WriteFileEv string string bool
  | LogEv string
  | NewClientEv
  | InspectEv string
  | ImagePullEv string
  | ContainerCreateEv string string "string list" string
  | ContainerStartEv string
  | ContainerWaitEv string
  | ContainerLogsEv string
  | ExecEv string "string list" bool

record state =
  files :: fs
  environ :: "string \<Rightarrow> string"
  stdout :: string
  trace :: "event list"

definition emit :: "event \<Rightarrow> state \<Rightarrow> state" where
  "emit e s = s\<lparr>trace := trace s @ [e]\<rparr>"

text \<open>
  An \<open>io.Writer\<close> that is \<open>os.Stdout\<close> (flag set) or a \<open>bytes.Buffer\<close> local to the
  caller.
\<close>

definition write_out :: "bool \<Rightarrow> string \<Rightarrow> state \<times> string \<Rightarrow> state \<times> string" where
  "write_out to_stdout bs x =
     (case x of (s, buf) \<Rightarrow>
        if to_stdout then (s\<lparr>stdout := stdout s @ bs\<rparr>, buf) else (s, buf @ bs))"

text \<open>
  Modelled from the spec: the type \<open>execer\<close> is declared elsewhere in the package. The spec
  describes it as running a command sequence, capturing the combined output and failing
  fast on the first non-zero exit: once a command has failed, later calls of \<open>Command\<close> run
  nothing, and \<open>Error\<close> gives the first failure. The execer is the triple of the process
  state, its output buffer and its error.
\<close>

definition Command ::
  "world \<Rightarrow> bool \<Rightarrow> string \<Rightarrow> string list \<Rightarrow> state \<times> string \<times> error option
     \<Rightarrow> state \<times> string \<times> error option" where
  "Command w to_stdout dir argv x =
     (case x of
        (s, buf, Some e) \<Rightarrow> (s, buf, Some e)
      | (s, buf, None) \<Rightarrow>
          (case run_cmd w dir argv (files s) of
             (r, out, fs') \<Rightarrow>
               (case write_out to_stdout out (emit (ExecEv dir argv (r = None)) (s\<lparr>files := fs'\<rparr>), buf) of
                  (s', buf') \<Rightarrow> (s', buf', r))))"

section \<open>The container id\<close>

definition newline :: char where
  "newline = CHR 0x0A"

definition containerID :: "state \<Rightarrow> state \<times> (error + string)" where
  "containerID s0 =
     (let s = emit (ReadFileEv ''/proc/self/cgroup'') s0 in
      case files s ''/proc/self/cgroup'' of
        None \<Rightarrow> (s, Inl (Wrap (ErrNotExist ''/proc/self/cgroup'')
                    ''failed to read /proc/self/cgroup to determine container id''))
      | Some Denied \<Rightarrow> (s, Inl (Wrap (ErrOS ''permission denied'')
                    ''failed to read /proc/self/cgroup to determine container id''))
      | Some Dir \<Rightarrow> (s, Inl (Wrap (ErrOS ''is a directory'')
                    ''failed to read first line of /proc/self/cgroup''))
      | Some (File c) \<Rightarrow>
          if newline \<notin> set c
          then (s, Inl (Wrap (ErrOS ''EOF'') ''failed to read first line of /proc/self/cgroup''))
          else
            (let line = takeWhile (\<lambda>x. x \<noteq> newline) c @ [newline];
                 ps = SplitN line CHR ''/'' 3
             in if length ps \<noteq> 3
                then (s, Inl (ErrNew ''failed to parse /proc/self/cgroup''))
                else (s, Inr (TrimSpace (ps ! 2)))))"

section \<open>The upgrade routine\<close>

text \<open>
  The values \<open>maybeUpgradePostgres\<close> computes before it looks at the status: the version on
  disk, the upgrade directory inside the container and on the host, the status file, the
  data directory on the host, and the trimmed status.
\<close>

record prep =
  oldVersion :: string
  upgradeDir :: string
  hostUpgradeDir :: string
  statusFile :: string
  hostPath :: string
  status :: string

text \<open>
  The status read of the routine: a missing file is no error and leaves the bytes empty;
  the status is the trimmed contents.
\<close>

definition read_status :: "fs \<Rightarrow> string \<Rightarrow> error + string" where
  "read_status fs sf =
     (case ReadFile fs sf of
        Inl err \<Rightarrow>
          if \<not> IsNotExist err then Inl (Wrap err ''failed to read status file'')
          else Inr (TrimSpace [])
      | Inr bs \<Rightarrow> Inr (TrimSpace bs))"

text \<open>
  The routine up to the status read (lines 103 to 138 of \<open>postgres.go\<close>): version marker,
  container id, Docker client, host mount point, upgrade directory, status file.
\<close>

definition prepare :: "world \<Rightarrow> string \<Rightarrow> string \<Rightarrow> state \<Rightarrow> state \<times> (error + prep)" where
  "prepare w path newVersion s0 =
     (let vfile = filepath_Join w path ''PG_VERSION'';
          s1 = emit (ReadFileEv vfile) s0
      in case ReadFile (files s1) vfile of
        Inl err \<Rightarrow> (s1, Inl (Wrap err ''failed to detect version of existing Postgres data''))
      | Inr bs \<Rightarrow>
      (case containerID s1 of
        (s2, Inl err) \<Rightarrow> (s2, Inl (Wrap err ''failed to determine running container id''))
      | (s2, Inr cid) \<Rightarrow>
      (let s3 = emit NewClientEv s2
       in case NewClient w of
        Some err \<Rightarrow> (s3, Inl (Wrap err ''failed to initialise docker client''))
      | None \<Rightarrow>
      (let s4 = emit (InspectEv cid) s3
       in case hostMountPoint w cid (filepath_Dir w path) of
        Inl err \<Rightarrow> (s4, Inl (Wrap err ''failed to determine host mount point''))
      | Inr hostDataDir \<Rightarrow>
      (let oldV = TrimSpace bs;
           upDir = filepath_Join w (filepath_Dir w path)
                     (Sprintf ''.%s-to-%s-upgrade'' [oldV, newVersion]);
           hostUpDir = filepath_Join w hostDataDir (filepath_Base w upDir);
           sFile = filepath_Join w upDir ''status'';
           s5 = emit (MkdirAllEv upDir) s4
       in case MkdirAll w (files s5) upDir of
        Inl err \<Rightarrow> (s5, Inl (Wrap err ''failed to create upgrade dir''))
      | Inr fs' \<Rightarrow>
      (let s6 = emit (ReadFileEv sFile) (s5\<lparr>files := fs'\<rparr>)
       in case read_status (files s6) sFile of
        Inl err \<Rightarrow> (s6, Inl err)
      | Inr st \<Rightarrow>
          (s6, Inr \<lparr>oldVersion = oldV, upgradeDir = upDir, hostUpgradeDir = hostUpDir,
                    statusFile = sFile,
                    hostPath = filepath_Join w hostDataDir (filepath_Base w path),
                    status = st\<rparr>)))))))"

text \<open>
  Log lines are recorded as the formatted message, without the prefix and the final line
  feed the logger adds. The star of the messages is U+2731 in UTF-8.
\<close>

definition star :: string where
  "star = [CHR 0xE2, CHR 0x9C, CHR 0xB1]"

definition interrupted :: error where
  "interrupted = ErrNew ''Interrupted internal database upgrade detected''"

definition remediation :: "prep \<Rightarrow> string \<Rightarrow> string" where
  "remediation p newVersion =
     (if oldVersion p = newVersion
      then Sprintf (''$ mv %s %s'' @ [newline] @ ''$ mv %s %s'' @ [newline] @ ''$ rm -rf %s'')
             [hostPath p, hostPath p @ ''-'' @ newVersion @ ''.bak'',
              hostPath p @ ''-'' @ oldVersion p, hostPath p,
              hostUpgradeDir p]
      else Sprintf (''$ mv %s %s'' @ [newline] @ ''$ rm -rf %s'')
             [hostPath p @ ''-'' @ newVersion, hostPath p @ ''-'' @ newVersion @ ''.bak'',
              hostUpgradeDir p])"

text \<open>The branch taken when the status reads \<open>started\<close> (lines 139 to 157).\<close>

definition report_interrupted :: "prep \<Rightarrow> string \<Rightarrow> state \<Rightarrow> state \<times> error option" where
  "report_interrupted p newVersion s =
     (let s1 = emit (LogEv (star @
                 '' Sourcegraph was previously interrupted while upgrading its internal database.'')) s;
          s2 = emit (LogEv (star @
                 '' To try again, start the container after running these commands (safe):''
                 @ [newline])) s1;
          s3 = emit (LogEv (remediation p newVersion)) s2
      in (s3, Some interrupted))"

text \<open>
  Pulling the image, creating and starting the container, waiting for it and copying its
  logs (lines 170 to 224). The result carries the output buffer of the routine. The wait
  returns on an error received from the error channel; what is received from the status
  channel is dropped.
\<close>

definition run_container ::
  "world \<Rightarrow> string \<Rightarrow> prep \<Rightarrow> state \<Rightarrow> state \<times> string \<times> error option" where
  "run_container w newVersion p s0 =
     (let img = Sprintf ''tianon/postgres-upgrade:%s-to-%s'' [oldVersion p, newVersion];
          s1 = emit (ImagePullEv img) s0
      in case ImagePull w img of
        Inl err \<Rightarrow> (s1, [], Some (Wrapf err ''failed to pull %q'' [img]))
      | Inr (pulled, rerr) \<Rightarrow>
      (case write_out (verbose w) pulled (s1, []) of (s2, buf2) \<Rightarrow>
       case rerr of
        Some err \<Rightarrow> (s2, buf2, Some (Wrap err ''failed to read output of docker pull''))
      | None \<Rightarrow>
      (let workingDir = ''/tmp/upgrade'';
           binds = [Sprintf ''%s:%s'' [hostUpgradeDir p, workingDir],
                    Sprintf ''%s:/var/lib/postgresql/%s/data'' [hostPath p, oldVersion p],
                    Sprintf ''%s-%s:/var/lib/postgresql/%s/data''
                      [hostPath p, newVersion, newVersion]];
           name = ''sourcegraph-postgres-upgrade-'' @ Itoa (Now_Unix w);
           s3 = emit (ContainerCreateEv img workingDir binds name) s2
       in case ContainerCreate w img workingDir binds name of
        Inl err \<Rightarrow> (s3, buf2, Some (Wrapf err ''failed to create %q'' [name]))
      | Inr rid \<Rightarrow>
      (let s4 = emit (ContainerStartEv rid) s3
       in case ContainerStart w rid of
        Some err \<Rightarrow> (s4, buf2, Some (Wrapf err ''failed to start %q'' [name]))
      | None \<Rightarrow>
      (let s5 = emit (ContainerWaitEv rid) s4
       in case ContainerWait w rid of
        WaitErr (Some err) \<Rightarrow> (s5, buf2, Some (Wrap err ''failed to upgrade postgres''))
      | _ \<Rightarrow>
      (let s6 = emit (ContainerLogsEv rid) s5
       in case ContainerLogs w rid of
        Inl err \<Rightarrow> (s6, buf2, Some (Wrapf err ''failed to retrieve %q logs'' [name]))
      | Inr (logged, cerr) \<Rightarrow>
      (case write_out (verbose w) logged (s6, buf2) of (s7, buf7) \<Rightarrow>
       case cerr of
        Some err \<Rightarrow> (s7, buf7, Some (Wrap err ''failed to copy logs to output''))
      | None \<Rightarrow> (s7, buf7, None))))))))"

text \<open>
  The four commands run after the container has stopped, in the upgrade directory, and the
  write of \<open>done\<close> (lines 226 to 245).
\<close>

definition swap_commands :: "string \<Rightarrow> string \<Rightarrow> prep \<Rightarrow> string list list" where
  "swap_commands path newVersion p =
     [[''mv'', path, path @ ''-'' @ oldVersion p],
      [''mv'', path @ ''-'' @ newVersion, path],
      [''chown'', ''-R'', ''postgres'', path],
      [''su-exec'', ''postgres'', ''/postgres-optimize.sh'', path]]"

definition finalize ::
  "world \<Rightarrow> string \<Rightarrow> string \<Rightarrow> prep \<Rightarrow> state \<times> string \<Rightarrow> state \<times> error option" where
  "finalize w path newVersion p x =
     (case x of (s0, buf0) \<Rightarrow>
      case foldl (\<lambda>e argv. Command w (verbose w) (upgradeDir p) argv e) (s0, buf0, None)
             (swap_commands path newVersion p) of
        (s1, buf1, Some err) \<Rightarrow>
          ((if \<not> verbose w then emit (LogEv buf1) s1 else s1),
           Some (Wrap err ''postgres upgrade failed after running pg_upgrade''))
      | (s1, buf1, None) \<Rightarrow>
          (case WriteFile w (files s1) (statusFile p) ''done'' of
             Inl err \<Rightarrow> (emit (WriteFileEv (statusFile p) ''done'' False) s1,
                         Some (Wrap err ''failed to create status file''))
           | Inr fs' \<Rightarrow> (emit (WriteFileEv (statusFile p) ''done'' True) (s1\<lparr>files := fs'\<rparr>),
                         None)))"

text \<open>The routine from the write of \<open>started\<close> on (lines 164 to 245).\<close>

definition upgrade ::
  "world \<Rightarrow> string \<Rightarrow> string \<Rightarrow> prep \<Rightarrow> state \<Rightarrow> state \<times> error option" where
  "upgrade w path newVersion p s0 =
     (let s1 = emit (LogEv (star @
        '' Sourcegraph is upgrading its internal database. Please don'' @ [CHR 0x27] @
        ''t interrupt this operation.'')) s0
      in case WriteFile w (files s1) (statusFile p) ''started'' of
        Inl err \<Rightarrow> (emit (WriteFileEv (statusFile p) ''started'' False) s1,
                    Some (Wrap err ''failed to create status file''))
      | Inr fs' \<Rightarrow>
          (case run_container w newVersion p
                  (emit (WriteFileEv (statusFile p) ''started'' True) (s1\<lparr>files := fs'\<rparr>)) of
             (s2, buf, Some err) \<Rightarrow> (s2, Some err)
           | (s2, buf, None) \<Rightarrow> finalize w path newVersion p (s2, buf)))"

text \<open>
  The whole routine: the steps before the status check, the check, the comparison of the
  versions, the upgrade.
\<close>

definition maybeUpgradePostgres ::
  "world \<Rightarrow> string \<Rightarrow> string \<Rightarrow> state \<Rightarrow> state \<times> error option" where
  "maybeUpgradePostgres w path newVersion s0 =
     (case prepare w path newVersion s0 of
        (s1, Inl err) \<Rightarrow> (s1, Some err)
      | (s1, Inr p) \<Rightarrow>
          if status p = ''started'' then report_interrupted p newVersion s1
          else if oldVersion p = newVersion then (s1, None)
          else upgrade w path newVersion p s1)"

section \<open>Setting up the database\<close>

definition init_commands :: "string \<Rightarrow> string list list" where
  "init_commands path =
     [[''mkdir'', ''-p'', path],
      [''chown'', ''postgres'', path],
      [''su-exec'', ''postgres'', ''initdb'', ''-D'', path, ''--nosync''],
      [''su-exec'', ''postgres'', ''pg_ctl'', ''-D'', path, ''-o -c listen_addresses=127.0.0.1'',
       ''-l'', ''/tmp/pgsql.log'', ''-w'', ''start''],
      [''su-exec'', ''postgres'', ''createdb'', ''sourcegraph''],
      [''su-exec'', ''postgres'', ''pg_ctl'', ''-D'', path, ''-m'', ''fast'',
       ''-l'', ''/tmp/pgsql.log'', ''-w'', ''stop'']]"

definition sq :: string where
  "sq = [CHR 0x27]"

definition procfile_line :: "string \<Rightarrow> string" where
  "procfile_line path =
     ''postgres: su-exec postgres sh -c '' @ sq @
     ''postgres -c listen_addresses=127.0.0.1 -D '' @ path @ sq @
     '' 2>&1 | grep -v '' @ sq @ ''database system was shut down'' @ sq @
     '' | grep -v '' @ sq @ ''MultiXact member wraparound'' @ sq @
     '' | grep -v '' @ sq @ ''database system is ready'' @ sq @
     '' | grep -v '' @ sq @ ''autovacuum launcher started'' @ sq @
     '' | grep -v '' @ sq @ ''the database system is starting up'' @ sq"

text \<open>The end of \<open>maybePostgresProcFile\<close>, common to both branches.\<close>

definition procfile_tail :: "world \<Rightarrow> string \<Rightarrow> state \<Rightarrow> state \<times> (error + string)" where
  "procfile_tail w path s =
     (let env1 = SetDefaultEnv w (environ s) ''PGHOST'' ''127.0.0.1'';
          env2 = SetDefaultEnv w env1 ''PGUSER'' ''postgres'';
          env3 = SetDefaultEnv w env2 ''PGDATABASE'' ''sourcegraph'';
          env4 = SetDefaultEnv w env3 ''PGSSLMODE'' ''disable''
      in (s\<lparr>environ := env4\<rparr>, Inr (procfile_line path)))"

text \<open>
  The branch for a data directory that does not exist yet, after its log lines: the six
  commands that create the database and, when one of them fails, the removal of the
  directory.
\<close>

definition init_database :: "world \<Rightarrow> string \<Rightarrow> state \<Rightarrow> state \<times> (error + string)" where
  "init_database w path s4 =
     (case foldl (\<lambda>e argv. Command w False [] argv e) (s4, [], None) (init_commands path) of
        (s5, out5, Some err5) \<Rightarrow>
          (let s6 = emit (LogEv (Sprintf (''Setting up postgres failed:'' @ [newline]
                       @ ''%s'') [out5])) s5;
               s7 = emit (RemoveAllEv path) (s6\<lparr>files := RemoveAll (files s6) path\<rparr>)
           in (s7, Inl err5))
      | (s5, out5, None) \<Rightarrow> procfile_tail w path s5)"

text \<open>The branch for a data directory that exists.\<close>

definition existing_database :: "world \<Rightarrow> string \<Rightarrow> state \<Rightarrow> state \<times> (error + string)" where
  "existing_database w path s2 =
     (case Command w False [] [''chown'', ''-R'', ''postgres'', path] (s2, [], None) of
        (s3, out3, Some err3) \<Rightarrow>
          (emit (LogEv (Sprintf (''Adjusting fs owners for postgres failed:'' @ [newline]
                   @ ''%s'') [out3])) s3,
           Inl err3)
      | (s3, out3, None) \<Rightarrow>
          (let version0 = TrimSpace (environ s3 ''PG_VERSION'');
               version = (if version0 = [] then ''11'' else version0)
           in case maybeUpgradePostgres w path version s3 of
                (s4, Some err4) \<Rightarrow> (s4, Inl err4)
              | (s4, None) \<Rightarrow> procfile_tail w path s4))"

text \<open>
  \<open>maybePostgresProcFile\<close> (lines 24 to 98): nothing to do when a database is configured;
  otherwise the run directory, the \<open>os.Stat\<close> of the data directory and one of the two
  branches.
\<close>

definition maybePostgresProcFile :: "world \<Rightarrow> state \<Rightarrow> state \<times> (error + string)" where
  "maybePostgresProcFile w s0 =
     (if environ s0 ''PGHOST'' \<noteq> [] \<or> environ s0 ''PGDATASOURCE'' \<noteq> [] then (s0, Inr [])
      else
        case foldl (\<lambda>e argv. Command w False [] argv e) (s0, [], None)
               [[''mkdir'', ''-p'', ''/run/postgresql''],
                [''chown'', ''-R'', ''postgres'', ''/run/postgresql'']] of
          (s1, out1, Some err) \<Rightarrow>
            (emit (LogEv (Sprintf (''Setting up postgres failed:'' @ [newline] @ ''%s'') [out1])) s1,
             Inl err)
        | (s1, out1, None) \<Rightarrow>
        (let dataDir = environ s1 ''DATA_DIR'';
             path = filepath_Join w dataDir ''postgresql'';
             s2 = emit (StatEv path (Stat (files s1) path)) s1
         in case Stat (files s2) path of
          Some err \<Rightarrow>
            if \<not> IsNotExist err then (s2, Inl err)
            else
              (let s3 = (if verbose w
                         then emit (LogEv (Sprintf ''Setting up PostgreSQL at %s'' [path])) s2
                         else s2);
                   s4 = emit (LogEv (star @
                     '' Sourcegraph is initializing the internal database... (may take 15-20 seconds)''))
                     s3
               in init_database w path s4)
        | None \<Rightarrow> existing_database w path s2))"

section \<open>A concrete installation\<close>

text \<open>
  A world and a state to run the routines on: the data directory \<open>/data/postgresql\<close> of
  version 9.6 inside a container whose \<open>/data\<close> is bound to \<open>/host/data\<close>, a Docker
  client that answers every call, commands that succeed and leave the files alone. The
  path functions agree with \<open>path/filepath\<close> on the clean absolute paths used here.
\<close>

definition ex_world :: world where
  "ex_world =
     \<lparr>filepath_Join = (\<lambda>a b. a @ ''/'' @ b),
      filepath_Dir = (\<lambda>p. rev (tl (dropWhile (\<lambda>c. c \<noteq> CHR ''/'') (rev p)))),
      filepath_Base = (\<lambda>p. rev (takeWhile (\<lambda>c. c \<noteq> CHR ''/'') (rev p))),
      verbose = False,
      SetDefaultEnv = (\<lambda>env k v. if env k = [] then env(k := v) else env),
      mkdir_err = (\<lambda>p. None),
      write_err = (\<lambda>p c. None),
      NewClient = None,
      ContainerInspect = (\<lambda>cid. Inr \<lparr>Binds = [''/host/data:/data''], Mounts = []\<rparr>),
      ImagePull = (\<lambda>img. Inr (''pulled'', None)),
      ContainerCreate = (\<lambda>img wd binds name. Inr ''c1''),
      ContainerStart = (\<lambda>rid. None),
      ContainerWait = (\<lambda>rid. WaitStatus 0),
      ContainerLogs = (\<lambda>rid. Inr (''upgraded'', None)),
      Now_Unix = 7,
      run_cmd = (\<lambda>dir argv fs. (None, [], fs))\<rparr>"

definition ex_files :: fs where
  "ex_files =
     [''/data'' \<mapsto> Dir,
      ''/data/postgresql'' \<mapsto> Dir,
      ''/data/postgresql/PG_VERSION'' \<mapsto> File (''9.6'' @ [newline]),
      ''/proc/self/cgroup'' \<mapsto> File (''11:hugetlb:/docker/ed70f86d'' @ [newline])]"

definition ex_state :: state where
  "ex_state = \<lparr>files = ex_files, environ = (\<lambda>k. []), stdout = [], trace = []\<rparr>"

text \<open>Variations: an interrupted upgrade, an unknown status, no container, no Docker.\<close>

definition ex_started :: state where
  "ex_started = ex_state\<lparr>files :=
     ex_files(''/data/.9.6-to-11-upgrade/status'' \<mapsto> File (''started'' @ [newline]))\<rparr>"

definition ex_garbage :: state where
  "ex_garbage = ex_state\<lparr>files :=
     ex_files(''/data/.9.6-to-11-upgrade/status'' \<mapsto> File ''garbage'')\<rparr>"

definition ex_no_cgroup :: state where
  "ex_no_cgroup = ex_state\<lparr>files := ex_files(''/proc/self/cgroup'' := None)\<rparr>"

definition ex_no_docker :: world where
  "ex_no_docker = ex_world\<lparr>ContainerInspect :=
     (\<lambda>cid. Inl (ErrOS ''Cannot connect to the Docker daemon''))\<rparr>"

definition ex_exit1 :: world where
  "ex_exit1 = ex_world\<lparr>ContainerWait := (\<lambda>rid. WaitStatus 1)\<rparr>"

definition ex_wait_fails :: world where
  "ex_wait_fails = ex_world\<lparr>ContainerWait := (\<lambda>rid. WaitErr (Some (ErrOS ''connection reset'')))\<rparr>"

definition ex_prep :: "string \<Rightarrow> prep" where
  "ex_prep st =
     \<lparr>oldVersion = ''9.6'', upgradeDir = ''/data/.9.6-to-11-upgrade'',
      hostUpgradeDir = ''/host/data/.9.6-to-11-upgrade'',
      statusFile = ''/data/.9.6-to-11-upgrade/status'',
      hostPath = ''/host/data/postgresql'', status = st\<rparr>"

text \<open>
  A first start: the data directory \<open>/var/postgresql\<close> does not exist, and \<open>initdb\<close> fails
  after it has written into the directory \<open>mkdir\<close> made.
\<close>

definition ex_fresh :: state where
  "ex_fresh = ex_state\<lparr>environ := (\<lambda>k. if k = ''DATA_DIR'' then ''/var'' else [])\<rparr>"

definition ex_initdb_fails :: world where
  "ex_initdb_fails = ex_world\<lparr>run_cmd :=
     (\<lambda>dir argv fs.
        if argv = [''mkdir'', ''-p'', ''/var/postgresql'']
        then (None, [], fs(''/var/postgresql'' \<mapsto> Dir))
        else if argv = [''su-exec'', ''postgres'', ''initdb'', ''-D'', ''/var/postgresql'', ''--nosync'']
        then (Some (ErrOS ''exit status 1''), ''initdb: error'',
              fs(''/var/postgresql/PG_VERSION'' \<mapsto> File ''11''))
        else (None, [], fs))\<rparr>"

section \<open>Vocabulary of the properties\<close>

text \<open>
  A bind \<open>src:dst\<close> of the container maps the host path \<open>src\<close> to the path \<open>dst\<close> inside
  the container; the host path is what precedes the first colon.
\<close>

definition bind_to :: "string \<Rightarrow> string \<Rightarrow> string \<Rightarrow> bool" where
  "bind_to path bind src = (CHR '':'' \<notin> set src \<and> bind = src @ CHR '':'' # path)"


text \<open>The actions a run adds to the trace.\<close>

definition new_events :: "state \<Rightarrow> state \<Rightarrow> event list" where
  "new_events s s' = drop (length (trace s)) (trace s')"

text \<open>
  Kinds of actions: probing the environment (reading a file, creating the Docker client,
  inspecting the container, making sure the upgrade directory exists), calls that pull,
  create, start, await or read the helper container, external commands, file writes.
\<close>

fun is_probe :: "event \<Rightarrow> bool" where
  "is_probe (ReadFileEv p) = True"
| "is_probe (MkdirAllEv p) = True"
| "is_probe NewClientEv = True"
| "is_probe (InspectEv c) = True"
| "is_probe e = False"

fun is_container_op :: "event \<Rightarrow> bool" where
  "is_container_op (ImagePullEv i) = True"
| "is_container_op (ContainerCreateEv i w b n) = True"
| "is_container_op (ContainerStartEv c) = True"
| "is_container_op (ContainerWaitEv c) = True"
| "is_container_op (ContainerLogsEv c) = True"
| "is_container_op e = False"

fun is_exec :: "event \<Rightarrow> bool" where
  "is_exec (ExecEv d a ok) = True"
| "is_exec e = False"

fun is_write :: "event \<Rightarrow> bool" where
  "is_write (WriteFileEv p c ok) = True"
| "is_write e = False"

text \<open>
  The status file of a run, as the routine derives it from the version marker found in
  the data directory.
\<close>

definition ledger_file :: "world \<Rightarrow> string \<Rightarrow> string \<Rightarrow> fs \<Rightarrow> string option" where
  "ledger_file w path newVersion fs =
     (case ReadFile fs (filepath_Join w path ''PG_VERSION'') of
        Inl err \<Rightarrow> None
      | Inr bs \<Rightarrow>
          Some (filepath_Join w
                  (filepath_Join w (filepath_Dir w path)
                     (Sprintf ''.%s-to-%s-upgrade'' [TrimSpace bs, newVersion]))
                  ''status''))"

text \<open>
  The ledger of a run reads \<open>st\<close>: the version marker can be read and the status file it
  leads to is a regular file whose trimmed contents are \<open>st\<close>.
\<close>

definition ledger_reads :: "world \<Rightarrow> string \<Rightarrow> string \<Rightarrow> fs \<Rightarrow> string \<Rightarrow> bool" where
  "ledger_reads w path newVersion fs st =
     (case ledger_file w path newVersion fs of
        None \<Rightarrow> False
      | Some sf \<Rightarrow> (case fs sf of Some (File c) \<Rightarrow> TrimSpace c = st | _ \<Rightarrow> False))"

text \<open>The trimmed version marker of the data directory is the version asked for.\<close>

definition version_current :: "world \<Rightarrow> string \<Rightarrow> string \<Rightarrow> fs \<Rightarrow> bool" where
  "version_current w path newVersion fs =
     (case ReadFile fs (filepath_Join w path ''PG_VERSION'') of
        Inl err \<Rightarrow> False
      | Inr bs \<Rightarrow> TrimSpace bs = newVersion)"

text \<open>
  The steps before the status is looked at all succeed: version marker, container id,
  Docker client, host mount point, upgrade directory, status file.
\<close>

definition probes_succeed :: "world \<Rightarrow> string \<Rightarrow> string \<Rightarrow> state \<Rightarrow> bool" where
  "probes_succeed w path newVersion s =
     (case snd (prepare w path newVersion s) of Inl err \<Rightarrow> False | Inr p \<Rightarrow> True)"

section \<open>Host path resolution: properties\<close>

lemma split_at_first:
  assumes "c \<in> set b"
  shows "b = takeWhile (\<lambda>x. x \<noteq> c) b @ c # tl (dropWhile (\<lambda>x. x \<noteq> c) b)"
proof -
  from assms have ne: "dropWhile (\<lambda>x. x \<noteq> c) b \<noteq> []" by simp
  then have "hd (dropWhile (\<lambda>x. x \<noteq> c) b) = c"
    using hd_dropWhile [of "\<lambda>x. x \<noteq> c" b] by simp
  with ne have "dropWhile (\<lambda>x. x \<noteq> c) b = c # tl (dropWhile (\<lambda>x. x \<noteq> c) b)"
    by (cases "dropWhile (\<lambda>x. x \<noteq> c) b") auto
  then show ?thesis
    using takeWhile_dropWhile_id [of "\<lambda>x. x \<noteq> c" b] by simp
qed

lemma SplitN_two:
  "SplitN b c 2 = (if c \<in> set b then [takeWhile (\<lambda>x. x \<noteq> c) b, tl (dropWhile (\<lambda>x. x \<noteq> c) b)] else [b])"
  by (simp add: numeral_2_eq_2)

lemma bind_test:
  "(length (SplitN b CHR '':'' 2) = 2 \<and> SplitN b CHR '':'' 2 ! 1 = path) = (\<exists>src. bind_to path b src)"
proof (cases "CHR '':'' \<in> set b")
  case True
  show ?thesis
  proof
    assume "length (SplitN b CHR '':'' 2) = 2 \<and> SplitN b CHR '':'' 2 ! 1 = path"
    with True have "tl (dropWhile (\<lambda>x. x \<noteq> CHR '':'') b) = path"
      by (simp add: SplitN_two)
    with split_at_first [OF True] have "b = takeWhile (\<lambda>x. x \<noteq> CHR '':'') b @ CHR '':'' # path"
      by simp
    moreover have "CHR '':'' \<notin> set (takeWhile (\<lambda>x. x \<noteq> CHR '':'') b)"
      by (auto dest: set_takeWhileD)
    ultimately show "\<exists>src. bind_to path b src"
      unfolding bind_to_def by blast
  next
    assume "\<exists>src. bind_to path b src"
    then obtain src where s: "CHR '':'' \<notin> set src" "b = src @ CHR '':'' # path"
      unfolding bind_to_def by blast
    then have "dropWhile (\<lambda>x. x \<noteq> CHR '':'') b = CHR '':'' # path"
      by (auto simp: dropWhile_append3)
    with True show "length (SplitN b CHR '':'' 2) = 2 \<and> SplitN b CHR '':'' 2 ! 1 = path"
      by (simp add: SplitN_two)
  qed
next
  case False
  then show ?thesis
    by (auto simp: SplitN_two bind_to_def)
qed

lemma bind_src:
  assumes "bind_to path b src"
  shows "SplitN b CHR '':'' 2 ! 0 = src"
proof -
  from assms have s: "CHR '':'' \<notin> set src" "b = src @ CHR '':'' # path"
    unfolding bind_to_def by blast+
  then have "takeWhile (\<lambda>x. x \<noteq> CHR '':'') b = src"
    by (auto simp: takeWhile_tail)
  with s show ?thesis by (simp add: SplitN_two)
qed

lemma scan_binds_match:
  assumes "bind_to path b src"
  shows "scan_binds (b # bs) path = Some src"
proof -
  from assms have "\<exists>s. bind_to path b s" by blast
  then have "length (SplitN b CHR '':'' 2) = 2 \<and> SplitN b CHR '':'' 2 ! 1 = path"
    by (simp only: bind_test)
  with bind_src [OF assms] show ?thesis by (auto simp: Let_def)
qed

lemma scan_binds_nomatch:
  assumes "\<forall>s. \<not> bind_to path b s"
  shows "scan_binds (b # bs) path = scan_binds bs path"
proof -
  from assms have "\<not> (\<exists>s. bind_to path b s)" by blast
  then have "\<not> (length (SplitN b CHR '':'' 2) = 2 \<and> SplitN b CHR '':'' 2 ! 1 = path)"
    unfolding bind_test .
  then show ?thesis by (auto simp: Let_def)
qed

lemma scan_binds_None:
  "scan_binds bs path = None \<longleftrightarrow> (\<forall>b\<in>set bs. \<forall>src. \<not> bind_to path b src)"
proof (induction bs)
  case Nil
  show ?case by simp
next
  case (Cons a bs)
  show ?case
  proof (cases "\<exists>s. bind_to path a s")
    case True
    then obtain s where "bind_to path a s" by blast
    then show ?thesis using scan_binds_match [of path a s bs] by auto
  next
    case False
    then show ?thesis using scan_binds_nomatch [of path a bs] Cons by auto
  qed
qed

lemma scan_binds_first:
  assumes "bind_to path b src" and "\<forall>x\<in>set pre. \<forall>s. \<not> bind_to path x s"
  shows "scan_binds (pre @ b # post) path = Some src"
  using assms
proof (induction pre)
  case Nil
  then show ?case by (simp add: scan_binds_match del: scan_binds.simps)
next
  case (Cons a pre)
  then show ?case by (simp add: scan_binds_nomatch del: scan_binds.simps)
qed

lemma scan_binds_Some:
  "scan_binds bs path = Some src \<Longrightarrow> \<exists>b\<in>set bs. bind_to path b src"
proof (induction bs)
  case Nil
  then show ?case by simp
next
  case (Cons a bs)
  show ?case
  proof (cases "\<exists>s. bind_to path a s")
    case True
    then obtain s where s: "bind_to path a s" by blast
    from scan_binds_match [OF s, of bs] Cons.prems have "s = src" by simp
    with s show ?thesis by auto
  next
    case False
    with Cons scan_binds_nomatch [of path a bs] show ?thesis by auto
  qed
qed

lemma scan_mounts_None:
  "scan_mounts ms path = None \<longleftrightarrow> (\<forall>m\<in>set ms. Destination m \<noteq> path)"
  by (induction ms) auto

lemma scan_mounts_first:
  "Destination m = path \<Longrightarrow> \<forall>x\<in>set pre. Destination x \<noteq> path \<Longrightarrow>
   scan_mounts (pre @ m # post) path = Some (Source m)"
  by (induction pre) auto

lemma scan_mounts_Some:
  "scan_mounts ms path = Some src \<Longrightarrow> \<exists>m\<in>set ms. Destination m = path \<and> Source m = src"
  by (induction ms) (auto split: if_splits)

lemma hostMountPoint_bind:
  assumes "ContainerInspect w cid = Inr c" and "Binds c = pre @ b # post"
    and "bind_to path b src" and "\<forall>x\<in>set pre. \<forall>s. \<not> bind_to path x s"
  shows "hostMountPoint w cid path = Inr src"
  using assms by (simp add: hostMountPoint_def scan_binds_first)

lemma hostMountPoint_mount:
  assumes "ContainerInspect w cid = Inr c" and "\<forall>b\<in>set (Binds c). \<forall>s. \<not> bind_to path b s"
    and "Mounts c = pre @ m # post" and "Destination m = path"
    and "\<forall>x\<in>set pre. Destination x \<noteq> path"
  shows "hostMountPoint w cid path = Inr (Source m)"
proof -
  from assms have "scan_binds (Binds c) path = None" by (simp add: scan_binds_None)
  moreover from assms have "scan_mounts (Mounts c) path = Some (Source m)"
    by (simp add: scan_mounts_first)
  ultimately show ?thesis using assms(1) by (simp add: hostMountPoint_def)
qed

lemma hostMountPoint_none:
  assumes "ContainerInspect w cid = Inr c" and "\<forall>b\<in>set (Binds c). \<forall>s. \<not> bind_to path b s"
    and "\<forall>m\<in>set (Mounts c). Destination m \<noteq> path"
  shows "hostMountPoint w cid path =
           Inl (Errorf ''couldn't find host mountpoint of %q on container %q'' [path, cid])"
proof -
  from assms have "scan_binds (Binds c) path = None" by (simp add: scan_binds_None)
  moreover from assms have "scan_mounts (Mounts c) path = None" by (simp add: scan_mounts_None)
  ultimately show ?thesis using assms(1) by (simp add: hostMountPoint_def)
qed

lemma hostMountPoint_sound:
  assumes "ContainerInspect w cid = Inr c" and "hostMountPoint w cid path = Inr src"
  shows "(\<exists>b\<in>set (Binds c). bind_to path b src) \<or>
         (\<exists>m\<in>set (Mounts c). Destination m = path \<and> Source m = src)"
  using assms
  by (auto simp: hostMountPoint_def split: option.splits dest: scan_binds_Some scan_mounts_Some)

text \<open>
  A bind with a mode, such as \<open>/host/data:/data:ro\<close>, is not matched by the scan of the
  binds, since all that follows the first colon is compared with the path; such a path is
  left to the list of mounts.
\<close>

lemma bind_with_mode_not_matched:
  "scan_binds [''/host/data:/data:ro''] ''/data'' = None"
  by (simp add: SplitN_two)

text \<open>
  C7. When the container can be inspected, \<open>hostMountPoint\<close> returns the host side of the
  first bind whose container side is exactly the requested path; when no bind has that
  container side, the source of the first mount whose destination is exactly the path;
  and when neither list has an entry for exactly that path, the error that no host mount
  point was found. A path it returns always comes from such an entry.
\<close>

theorem host_path_resolution:
  assumes "ContainerInspect w cid = Inr c"
  shows "(\<forall>pre b post src. Binds c = pre @ b # post \<and> bind_to path b src \<and>
            (\<forall>x\<in>set pre. \<forall>s. \<not> bind_to path x s) \<longrightarrow>
            hostMountPoint w cid path = Inr src) \<and>
         (\<forall>pre m post. (\<forall>b\<in>set (Binds c). \<forall>s. \<not> bind_to path b s) \<and>
            Mounts c = pre @ m # post \<and> Destination m = path \<and>
            (\<forall>x\<in>set pre. Destination x \<noteq> path) \<longrightarrow>
            hostMountPoint w cid path = Inr (Source m)) \<and>
         ((\<forall>b\<in>set (Binds c). \<forall>s. \<not> bind_to path b s) \<and>
          (\<forall>m\<in>set (Mounts c). Destination m \<noteq> path) \<longrightarrow>
          hostMountPoint w cid path =
            Inl (Errorf ''couldn't find host mountpoint of %q on container %q'' [path, cid])) \<and>
         (\<forall>src. hostMountPoint w cid path = Inr src \<longrightarrow>
            (\<exists>b\<in>set (Binds c). bind_to path b src) \<or>
            (\<exists>m\<in>set (Mounts c). Destination m = path \<and> Source m = src))"
proof (intro conjI allI impI)
  fix pre b post src
  assume "Binds c = pre @ b # post \<and> bind_to path b src \<and>
            (\<forall>x\<in>set pre. \<forall>s. \<not> bind_to path x s)"
  then show "hostMountPoint w cid path = Inr src"
    using hostMountPoint_bind [OF assms] by blast
next
  fix pre m post
  assume "(\<forall>b\<in>set (Binds c). \<forall>s. \<not> bind_to path b s) \<and>
            Mounts c = pre @ m # post \<and> Destination m = path \<and>
            (\<forall>x\<in>set pre. Destination x \<noteq> path)"
  then show "hostMountPoint w cid path = Inr (Source m)"
    using hostMountPoint_mount [OF assms] by blast
next
  assume "(\<forall>b\<in>set (Binds c). \<forall>s. \<not> bind_to path b s) \<and>
          (\<forall>m\<in>set (Mounts c). Destination m \<noteq> path)"
  then show "hostMountPoint w cid path =
            Inl (Errorf ''couldn't find host mountpoint of %q on container %q'' [path, cid])"
    using hostMountPoint_none [OF assms] by blast
next
  fix src
  assume "hostMountPoint w cid path = Inr src"
  then show "(\<exists>b\<in>set (Binds c). bind_to path b src) \<or>
            (\<exists>m\<in>set (Mounts c). Destination m = path \<and> Source m = src)"
    using hostMountPoint_sound [OF assms] by blast
qed

text \<open>
  The example of the specification: with the single bind \<open>/host/data:/data\<close>, the path
  \<open>/data\<close> resolves to \<open>/host/data\<close> and \<open>/data/sub\<close> is not found.
\<close>

theorem host_path_resolution_witness:
  "ContainerInspect ex_world ''ed70f86d'' = Inr \<lparr>Binds = [''/host/data:/data''], Mounts = []\<rparr> \<and>
   hostMountPoint ex_world ''ed70f86d'' ''/data'' = Inr ''/host/data'' \<and>
   hostMountPoint ex_world ''ed70f86d'' ''/data/sub'' =
     Inl (Errorf ''couldn't find host mountpoint of %q on container %q''
            [''/data/sub'', ''ed70f86d''])"
proof -
  have h: "ContainerInspect ex_world ''ed70f86d'' =
             Inr \<lparr>Binds = [''/host/data:/data''], Mounts = []\<rparr>"
    by (simp add: ex_world_def)
  have b: "bind_to ''/data'' ''/host/data:/data'' ''/host/data''"
    by (simp add: bind_to_def)
  have "\<not> (length (SplitN ''/host/data:/data'' CHR '':'' 2) = 2 \<and>
            SplitN ''/host/data:/data'' CHR '':'' 2 ! 1 = ''/data/sub'')"
    by (simp add: SplitN_two)
  then have n: "\<forall>s. \<not> bind_to ''/data/sub'' ''/host/data:/data'' s"
    unfolding bind_test by blast
  let ?c = "\<lparr>Binds = [''/host/data:/data''], Mounts = []\<rparr>"
  from host_path_resolution [OF h, of "''/data''"]
  have "Binds ?c = [] @ ''/host/data:/data'' # [] \<and>
        bind_to ''/data'' ''/host/data:/data'' ''/host/data'' \<and>
        (\<forall>x\<in>set []. \<forall>s. \<not> bind_to ''/data'' x s) \<longrightarrow>
        hostMountPoint ex_world ''ed70f86d'' ''/data'' = Inr ''/host/data''"
    by blast
  with b have "hostMountPoint ex_world ''ed70f86d'' ''/data'' = Inr ''/host/data''"
    by simp
  moreover from host_path_resolution [OF h, of "''/data/sub''"]
  have "(\<forall>b\<in>set (Binds ?c). \<forall>s. \<not> bind_to ''/data/sub'' b s) \<and>
        (\<forall>m\<in>set (Mounts ?c). Destination m \<noteq> ''/data/sub'') \<longrightarrow>
        hostMountPoint ex_world ''ed70f86d'' ''/data/sub'' =
          Inl (Errorf ''couldn't find host mountpoint of %q on container %q''
                 [''/data/sub'', ''ed70f86d''])"
    by blast
  with n have "hostMountPoint ex_world ''ed70f86d'' ''/data/sub'' =
     Inl (Errorf ''couldn't find host mountpoint of %q on container %q''
            [''/data/sub'', ''ed70f86d''])"
    by simp
  ultimately show ?thesis using h by simp
qed

section \<open>The status ledger: properties\<close>

lemma TrimSpace_started [simp]: "TrimSpace ''started'' = ''started''"
  by (simp add: TrimSpace_def isSpace_def)

lemma TrimSpace_done [simp]: "TrimSpace ''done'' = ''done''"
  by (simp add: TrimSpace_def isSpace_def)

lemma TrimSpace_Nil [simp]: "TrimSpace [] = []"
  by (simp add: TrimSpace_def)

lemma WriteFile_Inr:
  "WriteFile w fs p c = Inr fs' \<Longrightarrow> fs' = fs(p \<mapsto> File c)"
  by (auto simp: WriteFile_def split: option.splits node.splits)

text \<open>
  C9. Round trip of the ledger: after the status file has been written with \<open>started\<close> or
  with \<open>done\<close>, the status read of the routine gives that value; without a status file it
  gives the empty status.
\<close>

theorem ledger_round_trip:
  "((st = ''started'' \<or> st = ''done'') \<and> WriteFile w fs sf st = Inr fs' \<longrightarrow>
      read_status fs' sf = Inr st) \<and>
   (fs sf = None \<longrightarrow> read_status fs sf = Inr [])"
proof (intro conjI impI)
  assume h: "(st = ''started'' \<or> st = ''done'') \<and> WriteFile w fs sf st = Inr fs'"
  then have "fs' = fs(sf \<mapsto> File st)" using WriteFile_Inr by blast
  with h show "read_status fs' sf = Inr st"
    by (auto simp: read_status_def ReadFile_def)
next
  assume "fs sf = None"
  then show "read_status fs sf = Inr []"
    by (simp add: read_status_def ReadFile_def)
qed

theorem ledger_round_trip_witness:
  "WriteFile ex_world ex_files ''/data/.9.6-to-11-upgrade/status'' ''started''
     = Inr (ex_files(''/data/.9.6-to-11-upgrade/status'' \<mapsto> File ''started'')) \<and>
   read_status (ex_files(''/data/.9.6-to-11-upgrade/status'' \<mapsto> File ''started''))
     ''/data/.9.6-to-11-upgrade/status'' = Inr ''started'' \<and>
   ex_files ''/data/.9.6-to-11-upgrade/status'' = None \<and>
   read_status ex_files ''/data/.9.6-to-11-upgrade/status'' = Inr []"
proof -
  have n: "ex_files ''/data/.9.6-to-11-upgrade/status'' = None"
    by (simp add: ex_files_def)
  then have wr: "WriteFile ex_world ex_files ''/data/.9.6-to-11-upgrade/status'' ''started''
     = Inr (ex_files(''/data/.9.6-to-11-upgrade/status'' \<mapsto> File ''started''))"
    by (simp add: WriteFile_def ex_world_def)
  from ledger_round_trip [of "''started''" ex_world ex_files "''/data/.9.6-to-11-upgrade/status''"
      "ex_files(''/data/.9.6-to-11-upgrade/status'' \<mapsto> File ''started'')"] wr n
  show ?thesis by simp
qed

section \<open>Traces of the phases\<close>

lemma emit_simps [simp]:
  "trace (emit e s) = trace s @ [e]" "files (emit e s) = files s"
  "environ (emit e s) = environ s" "stdout (emit e s) = stdout s"
  by (simp_all add: emit_def)

lemma containerID_state: "fst (containerID s) = emit (ReadFileEv ''/proc/self/cgroup'') s"
  by (simp add: containerID_def Let_def split: option.splits node.splits)

lemma containerID_eq:
  "containerID s = (s', r) \<Longrightarrow> s' = emit (ReadFileEv ''/proc/self/cgroup'') s"
  using containerID_state [of s] by simp

lemma MkdirAll_Inr:
  "MkdirAll w fs d = Inr fs' \<Longrightarrow> fs' = fs \<or> (fs d = None \<and> fs' = fs(d \<mapsto> Dir))"
  by (auto simp: MkdirAll_def split: option.splits node.splits)

lemma prepare_Inr:
  assumes "prepare w path v s = (s1, Inr p)"
  shows "\<exists>bs cid.
           ReadFile (files s) (filepath_Join w path ''PG_VERSION'') = Inr bs \<and>
           oldVersion p = TrimSpace bs \<and>
           upgradeDir p = filepath_Join w (filepath_Dir w path)
                            (Sprintf ''.%s-to-%s-upgrade'' [TrimSpace bs, v]) \<and>
           statusFile p = filepath_Join w (upgradeDir p) ''status'' \<and>
           MkdirAll w (files s) (upgradeDir p) = Inr (files s1) \<and>
           read_status (files s1) (statusFile p) = Inr (status p) \<and>
           environ s1 = environ s \<and> stdout s1 = stdout s \<and>
           trace s1 = trace s @
             [ReadFileEv (filepath_Join w path ''PG_VERSION''),
              ReadFileEv ''/proc/self/cgroup'', NewClientEv, InspectEv cid,
              MkdirAllEv (upgradeDir p), ReadFileEv (statusFile p)]"
  using assms
  by (auto simp: prepare_def Let_def split: sum.splits prod.splits option.splits
      dest!: containerID_eq)

lemma prepare_any:
  assumes "prepare w path v s = (s1, r)"
  shows "\<exists>evs. trace s1 = trace s @ ReadFileEv (filepath_Join w path ''PG_VERSION'') # evs \<and>
           (\<forall>x\<in>set evs. is_probe x) \<and>
           (\<forall>q. files s1 q = files s q \<or> (files s q = None \<and> files s1 q = Some Dir)) \<and>
           environ s1 = environ s \<and> stdout s1 = stdout s"
  using assms
  by (auto simp: prepare_def Let_def split: sum.splits prod.splits option.splits
      dest!: containerID_eq MkdirAll_Inr)

lemma Command_None:
  assumes "Command w b dir argv (s, buf, None) = (s', buf', r)"
  shows "trace s' = trace s @ [ExecEv dir argv (r = None)] \<and> environ s' = environ s"
  using assms
  by (auto simp: Command_def write_out_def split: prod.splits if_splits)

lemma Command_Some [simp]:
  "Command w b dir argv (s, buf, Some e) = (s, buf, Some e)"
  by (simp add: Command_def)

lemma run_commands:
  assumes "foldl (\<lambda>e argv. Command w b dir argv e) (s, buf, None) cmds = (s', buf', r)"
  shows "environ s' = environ s \<and>
         ((r = None \<and> trace s' = trace s @ map (\<lambda>c. ExecEv dir c True) cmds) \<or>
          (r \<noteq> None \<and> (\<exists>k<length cmds.
             trace s' = trace s @ map (\<lambda>c. ExecEv dir c True) (take k cmds)
                          @ [ExecEv dir (cmds ! k) False])))"
  using assms
proof (induction cmds arbitrary: s' buf' r rule: rev_induct)
  case Nil
  then show ?case by simp
next
  case (snoc c cmds)
  obtain s1 buf1 r1 where f: "foldl (\<lambda>e argv. Command w b dir argv e) (s, buf, None) cmds = (s1, buf1, r1)"
    by (metis prod_cases3)
  note ih = snoc.IH [OF f]
  from snoc.prems f have step: "Command w b dir c (s1, buf1, r1) = (s', buf', r)" by simp
  show ?case
  proof (cases r1)
    case None
    with step have c: "trace s' = trace s1 @ [ExecEv dir c (r = None)]" "environ s' = environ s1"
      using Command_None by blast+
    from None ih have t: "trace s1 = trace s @ map (\<lambda>c. ExecEv dir c True) cmds" "environ s1 = environ s"
      by auto
    show ?thesis
    proof (cases r)
      case None
      with c t show ?thesis by simp
    next
      case (Some e)
      with c t have "trace s' = trace s @ map (\<lambda>c. ExecEv dir c True) (take (length cmds) (cmds @ [c]))
                          @ [ExecEv dir ((cmds @ [c]) ! length cmds) False]"
        by simp
      with Some c t show ?thesis by (metis length_append_singleton lessI option.distinct(1))
    qed
  next
    case (Some e)
    with step have eq: "s' = s1" "r = r1" by simp_all
    from Some ih obtain k where k: "k < length cmds"
      "trace s1 = trace s @ map (\<lambda>c. ExecEv dir c True) (take k cmds) @ [ExecEv dir (cmds ! k) False]"
      by auto
    then have "trace s' = trace s @ map (\<lambda>c. ExecEv dir c True) (take k (cmds @ [c]))
                 @ [ExecEv dir ((cmds @ [c]) ! k) False]"
      using eq by (simp add: nth_append)
    moreover from k have "k < length (cmds @ [c])" by simp
    ultimately show ?thesis using Some eq ih by blast
  qed
qed


lemma write_out_eq:
  "write_out b d (s, buf) = (s', buf') \<Longrightarrow>
     trace s' = trace s \<and> files s' = files s \<and> environ s' = environ s"
  by (auto simp: write_out_def split: if_splits)

lemma run_container_any:
  assumes "run_container w v p s0 = (s', buf, r)"
  shows "files s' = files s0 \<and> environ s' = environ s0 \<and>
         (\<exists>evs. trace s' = trace s0 @ evs \<and> (\<forall>x\<in>set evs. is_container_op x))"
  using assms
  by (auto simp: run_container_def Let_def 
      split: sum.splits prod.splits option.splits wait_result.splits
      dest!: write_out_eq)

lemma run_container_wait_err:
  assumes "run_container w v p s0 = (s', buf, r)"
    and "ContainerWaitEv rid \<in> set (drop (length (trace s0)) (trace s'))"
    and "ContainerWait w rid = WaitErr (Some e)"
  shows "r = Some (Wrap e ''failed to upgrade postgres'') \<and>
         (\<forall>c. ContainerLogsEv c \<notin> set (drop (length (trace s0)) (trace s')))"
  using assms
  by (auto simp: run_container_def Let_def
      split: sum.splits prod.splits option.splits wait_result.splits
      dest!: write_out_eq)


lemma finalize_cases:
  assumes "finalize w path v p (s0, buf) = (s', r)"
  shows "environ s' = environ s0 \<and> (\<exists>evs. trace s' = trace s0 @ evs \<and>
     ((evs = map (\<lambda>c. ExecEv (upgradeDir p) c True) (swap_commands path v p)
                   @ [WriteFileEv (statusFile p) ''done'' (r = None)] \<and>
            (r = None \<longrightarrow> files s' (statusFile p) = Some (File ''done''))) \<or>
      (r \<noteq> None \<and> (\<forall>x\<in>set evs. \<not> is_write x \<and> \<not> is_container_op x))))"
proof -
  obtain s1 buf1 r1 where
    f: "foldl (\<lambda>e argv. Command w (verbose w) (upgradeDir p) argv e) (s0, buf, None)
          (swap_commands path v p) = (s1, buf1, r1)"
    by (metis prod_cases3)
  note rc = run_commands [OF f]
  show ?thesis
  proof (cases r1)
    case None
    with rc have t: "trace s1 = trace s0 @ map (\<lambda>c. ExecEv (upgradeDir p) c True) (swap_commands path v p)"
      and e: "environ s1 = environ s0" by auto
    show ?thesis
    proof (cases "WriteFile w (files s1) (statusFile p) ''done''")
      case (Inl err)
      with assms f None have "s' = emit (WriteFileEv (statusFile p) ''done'' False) s1" "r \<noteq> None"
        by (auto simp: finalize_def)
      with t e show ?thesis by auto
    next
      case (Inr fs')
      with assms f None have "s' = emit (WriteFileEv (statusFile p) ''done'' True) (s1\<lparr>files := fs'\<rparr>)"
        "r = None"
        by (auto simp: finalize_def)
      moreover from Inr have "fs' = (files s1)(statusFile p \<mapsto> File ''done'')"
        by (rule WriteFile_Inr)
      ultimately show ?thesis using t e by simp
    qed
  next
    case (Some err)
    with rc obtain k where k: "k < length (swap_commands path v p)"
      "trace s1 = trace s0 @ map (\<lambda>c. ExecEv (upgradeDir p) c True) (take k (swap_commands path v p))
                   @ [ExecEv (upgradeDir p) (swap_commands path v p ! k) False]"
      and e: "environ s1 = environ s0"
      by auto
    from assms f Some have r: "r \<noteq> None"
      and s': "s' = (if \<not> verbose w then emit (LogEv buf1) s1 else s1)"
      by (auto simp: finalize_def)
    let ?evs = "map (\<lambda>c. ExecEv (upgradeDir p) c True) (take k (swap_commands path v p))
                   @ [ExecEv (upgradeDir p) (swap_commands path v p ! k) False]
                   @ (if \<not> verbose w then [LogEv buf1] else [])"
    from s' k have "trace s' = trace s0 @ ?evs" by simp
    moreover have "\<forall>x\<in>set ?evs. \<not> is_write x \<and> \<not> is_container_op x" by auto
    moreover from s' e have "environ s' = environ s0" by simp
    ultimately show ?thesis using r by blast
  qed
qed

lemma upgrade_cases:
  assumes "upgrade w path v p s1 = (s', r)"
  shows "environ s' = environ s1 \<and> (\<exists>m evs. trace s' = trace s1 @ LogEv m # evs \<and>
     ((evs = [WriteFileEv (statusFile p) ''started'' False] \<and> r \<noteq> None \<and> files s' = files s1) \<or>
      (\<exists>cevs fevs. evs = WriteFileEv (statusFile p) ''started'' True # cevs @ fevs \<and>
         (\<forall>x\<in>set cevs. is_container_op x) \<and>
         ((fevs = [] \<and> r \<noteq> None \<and> files s' = (files s1)(statusFile p \<mapsto> File ''started'')) \<or>
          (fevs = map (\<lambda>c. ExecEv (upgradeDir p) c True) (swap_commands path v p)
                   @ [WriteFileEv (statusFile p) ''done'' (r = None)] \<and>
            (r = None \<longrightarrow> files s' (statusFile p) = Some (File ''done''))) \<or>
          (r \<noteq> None \<and> (\<forall>x\<in>set fevs. \<not> is_write x \<and> \<not> is_container_op x))))))"
proof -
  define m where "m = star @
        '' Sourcegraph is upgrading its internal database. Please don'' @ [CHR 0x27] @
        ''t interrupt this operation.''"
  define sa where "sa = emit (LogEv m) s1"
  let ?W = "WriteFileEv (statusFile p) ''started'' True"
  let ?F = "\<lambda>fevs. (fevs = [] \<and> r \<noteq> None \<and> files s' = (files s1)(statusFile p \<mapsto> File ''started'')) \<or>
          (fevs = map (\<lambda>c. ExecEv (upgradeDir p) c True) (swap_commands path v p)
                   @ [WriteFileEv (statusFile p) ''done'' (r = None)] \<and>
            (r = None \<longrightarrow> files s' (statusFile p) = Some (File ''done''))) \<or>
          (r \<noteq> None \<and> (\<forall>x\<in>set fevs. \<not> is_write x \<and> \<not> is_container_op x))"
  show ?thesis
  proof (cases "WriteFile w (files sa) (statusFile p) ''started''")
    case (Inl err)
    with assms have "s' = emit (WriteFileEv (statusFile p) ''started'' False) sa" "r \<noteq> None"
      by (auto simp: upgrade_def Let_def sa_def m_def)
    then show ?thesis by (simp add: sa_def)
  next
    case (Inr fs')
    then have fs': "fs' = (files s1)(statusFile p \<mapsto> File ''started'')"
      using WriteFile_Inr [of w "files sa"] by (simp add: sa_def)
    define sb where "sb = emit ?W (sa\<lparr>files := fs'\<rparr>)"
    obtain s2 buf r2 where rcn: "run_container w v p sb = (s2, buf, r2)"
      by (metis prod_cases3)
    from run_container_any [OF rcn] obtain cevs where
      c: "files s2 = files sb" "environ s2 = environ sb" "trace s2 = trace sb @ cevs"
         "\<forall>x\<in>set cevs. is_container_op x"
      by blast
    have tb: "trace sb = trace s1 @ [LogEv m, ?W]"
      and fb: "files sb = fs'" and eb: "environ sb = environ s1"
      by (simp_all add: sb_def sa_def)
    have "\<exists>fevs. environ s' = environ s1 \<and> trace s' = trace s1 @ LogEv m # (?W # cevs @ fevs) \<and> ?F fevs"
    proof (cases r2)
      case (Some err)
      with assms Inr rcn have "s' = s2" and rn: "r \<noteq> None"
        by (auto simp: upgrade_def Let_def sa_def sb_def m_def)
      with c tb fb eb fs' have
        "trace s' = trace s1 @ LogEv m # (?W # cevs @ [])"
        "files s' = (files s1)(statusFile p \<mapsto> File ''started'')" "environ s' = environ s1"
        by simp_all
      with rn show ?thesis by blast
    next
      case None
      with assms Inr rcn have fin: "finalize w path v p (s2, buf) = (s', r)"
        by (auto simp: upgrade_def Let_def sa_def sb_def m_def)
      from finalize_cases [OF fin] obtain fevs where
        f: "environ s' = environ s2" "trace s' = trace s2 @ fevs"
        "(fevs = map (\<lambda>c. ExecEv (upgradeDir p) c True) (swap_commands path v p)
                   @ [WriteFileEv (statusFile p) ''done'' (r = None)] \<and>
            (r = None \<longrightarrow> files s' (statusFile p) = Some (File ''done''))) \<or>
          (r \<noteq> None \<and> (\<forall>x\<in>set fevs. \<not> is_write x \<and> \<not> is_container_op x))"
        by blast
      from f(2) c(3) tb have
        "trace s' = trace s1 @ LogEv m # (?W # cevs @ fevs)"
        by simp
      moreover from f(1) c(2) eb have "environ s' = environ s1" by simp
      moreover from f(3) have "?F fevs" by blast
      ultimately show ?thesis by blast
    qed
    then obtain fevs where
      r: "environ s' = environ s1" "trace s' = trace s1 @ LogEv m # (?W # cevs @ fevs)" "?F fevs"
      by blast
    from r(3) c(4) have "\<exists>cevs' fevs'. ?W # cevs @ fevs = ?W # cevs' @ fevs' \<and>
        (\<forall>x\<in>set cevs'. is_container_op x) \<and> ?F fevs'"
      by blast
    with r(1,2) show ?thesis by blast
  qed
qed


section \<open>The status check: properties\<close>

lemma new_events_append:
  "trace s' = trace s @ evs \<Longrightarrow> new_events s s' = evs"
  by (simp add: new_events_def)

lemma probe_kinds:
  "is_probe e \<Longrightarrow> \<not> is_container_op e \<and> \<not> is_write e \<and> \<not> is_exec e"
  by (cases e) simp_all

lemma remediation_text:
  "remediation p v =
     (if oldVersion p = v
      then ''$ mv '' @ hostPath p @ '' '' @ hostPath p @ ''-'' @ v @ ''.bak'' @ [newline] @
           ''$ mv '' @ hostPath p @ ''-'' @ oldVersion p @ '' '' @ hostPath p @ [newline] @
           ''$ rm -rf '' @ hostUpgradeDir p
      else ''$ mv '' @ hostPath p @ ''-'' @ v @ '' '' @ hostPath p @ ''-'' @ v @ ''.bak'' @ [newline] @
           ''$ rm -rf '' @ hostUpgradeDir p)"
  by (simp add: remediation_def newline_def)

lemma report_interrupted_eq:
  "report_interrupted p v s1 = (s', r) \<Longrightarrow>
     r = Some interrupted \<and> files s' = files s1 \<and> environ s' = environ s1 \<and>
     (\<exists>m1 m2. trace s' = trace s1 @ [LogEv m1, LogEv m2, LogEv (remediation p v)])"
  by (auto simp: report_interrupted_def Let_def)

lemma ledger_file_prep:
  assumes "prepare w path v s = (s1, Inr p)"
  shows "ledger_file w path v (files s) = Some (statusFile p)"
  using prepare_Inr [OF assms] by (auto simp: ledger_file_def)

lemma status_started_iff:
  assumes "prepare w path v s = (s1, Inr p)"
  shows "status p = ''started'' \<longleftrightarrow> ledger_reads w path v (files s) ''started''"
proof -
  from prepare_Inr [OF assms] obtain bs cid where
    h: "MkdirAll w (files s) (upgradeDir p) = Inr (files s1)"
       "read_status (files s1) (statusFile p) = Inr (status p)"
    by blast
  have lf: "ledger_file w path v (files s) = Some (statusFile p)"
    by (rule ledger_file_prep [OF assms])
  from MkdirAll_Inr [OF h(1)] have
    m: "files s1 = files s \<or> (files s (upgradeDir p) = None \<and> files s1 = (files s)(upgradeDir p \<mapsto> Dir))" .
  show ?thesis
  proof
    assume st: "status p = ''started''"
    with h(2) obtain c where c: "files s1 (statusFile p) = Some (File c)" "TrimSpace c = ''started''"
      by (auto simp: read_status_def ReadFile_def split: option.splits node.splits if_splits)
    with m have "files s (statusFile p) = Some (File c)"
      by (auto split: if_splits)
    with c lf show "ledger_reads w path v (files s) ''started''"
      by (simp add: ledger_reads_def)
  next
    assume "ledger_reads w path v (files s) ''started''"
    with lf obtain c where c: "files s (statusFile p) = Some (File c)" "TrimSpace c = ''started''"
      by (auto simp: ledger_reads_def split: option.splits node.splits)
    with m have "files s1 (statusFile p) = Some (File c)" by auto
    with h(2) c show "status p = ''started''"
      by (simp add: read_status_def ReadFile_def)
  qed
qed


lemma after_prepare:
  assumes "prepare w path v s = (s1, Inr p)" and "maybeUpgradePostgres w path v s = (s', r)"
  shows "\<exists>evs. trace s' = trace s1 @ evs"
proof (cases "status p = ''started''")
  case True
  with assms have "report_interrupted p v s1 = (s', r)"
    by (simp add: maybeUpgradePostgres_def)
  from report_interrupted_eq [OF this] show ?thesis by blast
next
  case False
  show ?thesis
  proof (cases "oldVersion p = v")
    case True
    with False assms have "s' = s1" by (simp add: maybeUpgradePostgres_def)
    then show ?thesis by simp
  next
    case v: False
    with False assms have "upgrade w path v p s1 = (s', r)"
      by (simp add: maybeUpgradePostgres_def)
    from upgrade_cases [OF this] show ?thesis by blast
  qed
qed

text \<open>
  C1, as stated, fails: with the ledger reading \<open>started\<close> and a Docker daemon that cannot
  be reached, the routine stops at the host mount point and never reports the
  interruption.
\<close>

theorem interrupted_upgrade_counterexample:
  "ledger_reads ex_no_docker ''/data/postgresql'' ''11'' (files ex_started) ''started'' \<and>
   snd (maybeUpgradePostgres ex_no_docker ''/data/postgresql'' ''11'' ex_started) =
     Some (Wrap (Wrapf (ErrOS ''Cannot connect to the Docker daemon'')
                   ''failed to inspect container %q'' [''ed70f86d''])
             ''failed to determine host mount point'')"
  by code_simp

text \<open>
  C1, amended. In every run in which the ledger reads \<open>started\<close> the routine fails, with
  the interrupted-upgrade error whenever the steps before the status check succeed and
  with the error of the failing step otherwise; it
  calls nothing of the helper container, writes no file and runs no command, and the only
  change to the files it can make is the creation of a directory that was missing.
\<close>

theorem interrupted_upgrade_detected:
  assumes "ledger_reads w path v (files s) ''started''"
    and "maybeUpgradePostgres w path v s = (s', r)"
  shows "r \<noteq> None \<and>
         (probes_succeed w path v s \<longrightarrow> r = Some interrupted) \<and>
         (\<forall>err. snd (prepare w path v s) = Inl err \<longrightarrow> r = Some err) \<and>
         (\<forall>e\<in>set (new_events s s'). \<not> is_container_op e \<and> \<not> is_write e \<and> \<not> is_exec e) \<and>
         (\<forall>q. files s' q = files s q \<or> (files s q = None \<and> files s' q = Some Dir))"
proof -
  obtain s1 pr where pr: "prepare w path v s = (s1, pr)" by (cases "prepare w path v s")
  from prepare_any [OF pr] obtain evs where
    pa: "trace s1 = trace s @ ReadFileEv (filepath_Join w path ''PG_VERSION'') # evs"
        "\<forall>x\<in>set evs. is_probe x"
        "\<forall>q. files s1 q = files s q \<or> (files s q = None \<and> files s1 q = Some Dir)"
    by blast
  show ?thesis
  proof (cases pr)
    case (Inl err)
    with pr assms(2) have "s' = s1" "r = Some err"
      by (auto simp: maybeUpgradePostgres_def)
    moreover from this pa(1) have "new_events s s' = ReadFileEv (filepath_Join w path ''PG_VERSION'') # evs"
      by (simp add: new_events_append)
    ultimately show ?thesis using pa(2,3) pr Inl
      by (auto simp: probes_succeed_def dest: probe_kinds)
  next
    case (Inr p)
    with pr have pp: "prepare w path v s = (s1, Inr p)" by simp
    with assms(1) have "status p = ''started''" by (simp add: status_started_iff)
    with pp assms(2) have "report_interrupted p v s1 = (s', r)"
      by (simp add: maybeUpgradePostgres_def)
    from report_interrupted_eq [OF this] obtain m1 m2 where
      ri: "r = Some interrupted" "files s' = files s1"
          "trace s' = trace s1 @ [LogEv m1, LogEv m2, LogEv (remediation p v)]"
      by blast
    from ri(3) pa(1) have "new_events s s' =
        ReadFileEv (filepath_Join w path ''PG_VERSION'') # evs @ [LogEv m1, LogEv m2, LogEv (remediation p v)]"
      by (simp add: new_events_append)
    with ri(1,2) pa(2,3) pp show ?thesis
      by (auto dest: probe_kinds)
  qed
qed


theorem interrupted_upgrade_detected_witness:
  "ledger_reads ex_world ''/data/postgresql'' ''11'' (files ex_started) ''started'' \<and>
   probes_succeed ex_world ''/data/postgresql'' ''11'' ex_started \<and>
   snd (maybeUpgradePostgres ex_world ''/data/postgresql'' ''11'' ex_started) = Some interrupted \<and>
   list_all (\<lambda>e. \<not> is_container_op e \<and> \<not> is_write e \<and> \<not> is_exec e)
     (new_events ex_started
        (fst (maybeUpgradePostgres ex_world ''/data/postgresql'' ''11'' ex_started)))"
proof -
  have h1: "ledger_reads ex_world ''/data/postgresql'' ''11'' (files ex_started) ''started''"
    by code_simp
  have h2: "probes_succeed ex_world ''/data/postgresql'' ''11'' ex_started"
    by code_simp
  from interrupted_upgrade_detected [OF h1 surjective_pairing] h1 h2
  show ?thesis unfolding list_all_iff by blast
qed

text \<open>
  C8. When the routine finds the status \<open>started\<close> it returns the interrupted-upgrade error
  after three log lines, the last of which is one of two literal command sequences: the
  one of three commands when the old and the new version are equal, the one of two
  commands otherwise. The commands are printed only: the run executes no command, calls
  nothing of the helper container and writes no file.
\<close>

theorem remediation_printed:
  assumes "prepare w path v s = (s1, Inr p)" and "status p = ''started''"
    and "maybeUpgradePostgres w path v s = (s', r)"
  shows "r = Some interrupted \<and>
         (\<exists>m1 m2. new_events s1 s' =
            [LogEv m1, LogEv m2,
             LogEv (if oldVersion p = v
                then ''$ mv '' @ hostPath p @ '' '' @ hostPath p @ ''-'' @ v @ ''.bak'' @ [newline] @
                     ''$ mv '' @ hostPath p @ ''-'' @ oldVersion p @ '' '' @ hostPath p @ [newline] @
                     ''$ rm -rf '' @ hostUpgradeDir p
                else ''$ mv '' @ hostPath p @ ''-'' @ v @ '' '' @ hostPath p @ ''-'' @ v @ ''.bak''
                     @ [newline] @ ''$ rm -rf '' @ hostUpgradeDir p)]) \<and>
         (\<forall>e\<in>set (new_events s s'). \<not> is_exec e \<and> \<not> is_container_op e \<and> \<not> is_write e) \<and>
         files s' = files s1"
proof -
  from assms have "report_interrupted p v s1 = (s', r)"
    by (simp add: maybeUpgradePostgres_def)
  from report_interrupted_eq [OF this] obtain m1 m2 where
    ri: "r = Some interrupted" "files s' = files s1"
        "trace s' = trace s1 @ [LogEv m1, LogEv m2, LogEv (remediation p v)]"
    by blast
  from prepare_any [OF assms(1)] obtain evs where
    pa: "trace s1 = trace s @ ReadFileEv (filepath_Join w path ''PG_VERSION'') # evs"
        "\<forall>x\<in>set evs. is_probe x"
    by blast
  from ri(3) pa(1) have "new_events s s' =
      ReadFileEv (filepath_Join w path ''PG_VERSION'') # evs @ [LogEv m1, LogEv m2, LogEv (remediation p v)]"
    by (simp add: new_events_append)
  with pa(2) have "\<forall>e\<in>set (new_events s s'). \<not> is_exec e \<and> \<not> is_container_op e \<and> \<not> is_write e"
    by (auto dest: probe_kinds)
  moreover from ri(3) have "new_events s1 s' = [LogEv m1, LogEv m2, LogEv (remediation p v)]"
    by (simp add: new_events_append)
  ultimately show ?thesis using ri(1,2) by (simp only: remediation_text) blast
qed

theorem remediation_printed_witness:
  "snd (prepare ex_world ''/data/postgresql'' ''11'' ex_started) = Inr (ex_prep ''started'') \<and>
   snd (maybeUpgradePostgres ex_world ''/data/postgresql'' ''11'' ex_started) = Some interrupted \<and>
   (\<exists>m1 m2. new_events (fst (prepare ex_world ''/data/postgresql'' ''11'' ex_started))
               (fst (maybeUpgradePostgres ex_world ''/data/postgresql'' ''11'' ex_started)) =
      [LogEv m1, LogEv m2,
       LogEv (''$ mv /host/data/postgresql-11 /host/data/postgresql-11.bak'' @ [newline] @
              ''$ rm -rf /host/data/.9.6-to-11-upgrade'')])"
proof -
  have p0: "snd (prepare ex_world ''/data/postgresql'' ''11'' ex_started) = Inr (ex_prep ''started'')"
    by code_simp
  then have h1: "prepare ex_world ''/data/postgresql'' ''11'' ex_started =
      (fst (prepare ex_world ''/data/postgresql'' ''11'' ex_started), Inr (ex_prep ''started''))"
    by (simp add: prod_eq_iff)
  have h2: "status (ex_prep ''started'') = ''started''"
    by (simp add: ex_prep_def)
  from remediation_printed [OF h1 h2 surjective_pairing] p0
  show ?thesis by (simp add: ex_prep_def)
qed

text \<open>
  C5, as stated, fails: a data directory of the current version, no interrupted upgrade,
  but a process that cannot find its container id; the routine returns an error.
\<close>

theorem no_upgrade_when_current_counterexample:
  "version_current ex_world ''/data/postgresql'' ''9.6'' (files ex_no_cgroup) \<and>
   \<not> ledger_reads ex_world ''/data/postgresql'' ''9.6'' (files ex_no_cgroup) ''started'' \<and>
   snd (maybeUpgradePostgres ex_world ''/data/postgresql'' ''9.6'' ex_no_cgroup) =
     Some (Wrap (Wrap (ErrNotExist ''/proc/self/cgroup'')
                   ''failed to read /proc/self/cgroup to determine container id'')
             ''failed to determine running container id'')"
  by code_simp

text \<open>
  C5, amended. When the trimmed version marker equals the expected version and the ledger
  does not read \<open>started\<close>, the routine does nothing but probe its environment: no file is
  written, nothing of the helper container is called, no command is run; it returns
  success whenever the steps before the status check succeed, and the error of the failing
  step otherwise.
\<close>

theorem no_upgrade_when_current:
  assumes "version_current w path v (files s)"
    and "\<not> ledger_reads w path v (files s) ''started''"
    and "maybeUpgradePostgres w path v s = (s', r)"
  shows "(probes_succeed w path v s \<longrightarrow> r = None) \<and>
         (\<forall>err. snd (prepare w path v s) = Inl err \<longrightarrow> r = Some err) \<and>
         (\<forall>e\<in>set (new_events s s').
            is_probe e \<and> \<not> is_write e \<and> \<not> is_container_op e \<and> \<not> is_exec e)"
proof -
  obtain s1 pr where pr: "prepare w path v s = (s1, pr)" by (cases "prepare w path v s")
  from prepare_any [OF pr] obtain evs where
    pa: "trace s1 = trace s @ ReadFileEv (filepath_Join w path ''PG_VERSION'') # evs"
        "\<forall>x\<in>set evs. is_probe x"
    by blast
  have "s' = s1 \<and> (probes_succeed w path v s \<longrightarrow> r = None) \<and>
        (\<forall>err. snd (prepare w path v s) = Inl err \<longrightarrow> r = Some err)"
  proof (cases pr)
    case (Inl err)
    with pr assms(3) show ?thesis
      by (auto simp: maybeUpgradePostgres_def probes_succeed_def)
  next
    case (Inr p)
    with pr have pp: "prepare w path v s = (s1, Inr p)" by simp
    with assms(2) have ns: "status p \<noteq> ''started''" by (simp add: status_started_iff)
    from prepare_Inr [OF pp] assms(1) have "oldVersion p = v"
      by (auto simp: version_current_def)
    with ns pp assms(3) show ?thesis by (simp add: maybeUpgradePostgres_def)
  qed
  moreover from this pa(1) have
    "new_events s s' = ReadFileEv (filepath_Join w path ''PG_VERSION'') # evs"
    by (simp add: new_events_append)
  ultimately show ?thesis using pa(2) by (auto dest: probe_kinds)
qed


theorem no_upgrade_when_current_witness:
  "version_current ex_world ''/data/postgresql'' ''9.6'' (files ex_state) \<and>
   \<not> ledger_reads ex_world ''/data/postgresql'' ''9.6'' (files ex_state) ''started'' \<and>
   probes_succeed ex_world ''/data/postgresql'' ''9.6'' ex_state \<and>
   snd (maybeUpgradePostgres ex_world ''/data/postgresql'' ''9.6'' ex_state) = None \<and>
   list_all (\<lambda>e. is_probe e \<and> \<not> is_write e \<and> \<not> is_container_op e \<and> \<not> is_exec e)
     (new_events ex_state
        (fst (maybeUpgradePostgres ex_world ''/data/postgresql'' ''9.6'' ex_state))) \<and>
   version_current ex_world ''/data/postgresql'' ''9.6'' (files ex_no_cgroup) \<and>
   \<not> ledger_reads ex_world ''/data/postgresql'' ''9.6'' (files ex_no_cgroup) ''started'' \<and>
   snd (prepare ex_world ''/data/postgresql'' ''9.6'' ex_no_cgroup) =
     Inl (Wrap (Wrap (ErrNotExist ''/proc/self/cgroup'')
                  ''failed to read /proc/self/cgroup to determine container id'')
            ''failed to determine running container id'') \<and>
   snd (maybeUpgradePostgres ex_world ''/data/postgresql'' ''9.6'' ex_no_cgroup) =
     Some (Wrap (Wrap (ErrNotExist ''/proc/self/cgroup'')
                   ''failed to read /proc/self/cgroup to determine container id'')
             ''failed to determine running container id'')"
proof -
  have h1: "version_current ex_world ''/data/postgresql'' ''9.6'' (files ex_state)"
    by code_simp
  have h2: "\<not> ledger_reads ex_world ''/data/postgresql'' ''9.6'' (files ex_state) ''started''"
    by code_simp
  have h3: "probes_succeed ex_world ''/data/postgresql'' ''9.6'' ex_state"
    by code_simp
  have g1: "version_current ex_world ''/data/postgresql'' ''9.6'' (files ex_no_cgroup)"
    by code_simp
  have g2: "\<not> ledger_reads ex_world ''/data/postgresql'' ''9.6'' (files ex_no_cgroup) ''started''"
    by code_simp
  have g3: "snd (prepare ex_world ''/data/postgresql'' ''9.6'' ex_no_cgroup) =
     Inl (Wrap (Wrap (ErrNotExist ''/proc/self/cgroup'')
                  ''failed to read /proc/self/cgroup to determine container id'')
            ''failed to determine running container id'')"
    by code_simp
  from no_upgrade_when_current [OF h1 h2 surjective_pairing] h3
  have a: "snd (maybeUpgradePostgres ex_world ''/data/postgresql'' ''9.6'' ex_state) = None \<and>
    list_all (\<lambda>e. is_probe e \<and> \<not> is_write e \<and> \<not> is_container_op e \<and> \<not> is_exec e)
     (new_events ex_state
        (fst (maybeUpgradePostgres ex_world ''/data/postgresql'' ''9.6'' ex_state)))"
    unfolding list_all_iff by blast
  from no_upgrade_when_current [OF g1 g2 surjective_pairing] g3
  have b: "snd (maybeUpgradePostgres ex_world ''/data/postgresql'' ''9.6'' ex_no_cgroup) =
     Some (Wrap (Wrap (ErrNotExist ''/proc/self/cgroup'')
                   ''failed to read /proc/self/cgroup to determine container id'')
             ''failed to determine running container id'')"
    by blast
  from h1 h2 h3 g1 g2 g3 a b show ?thesis by blast
qed

text \<open>
  C4, as stated, fails: with a status file that holds neither \<open>started\<close> nor \<open>done\<close> the
  routine does not fail; it carries out the upgrade and returns success.
\<close>

theorem ledger_values_counterexample:
  "read_status (files ex_garbage) ''/data/.9.6-to-11-upgrade/status'' = Inr ''garbage'' \<and>
   snd (maybeUpgradePostgres ex_world ''/data/postgresql'' ''11'' ex_garbage) = None"
  by code_simp

text \<open>
  C4, amended. The status is empty when the status file is absent and the trimmed
  contents of the file otherwise. Only the value \<open>started\<close> stops the routine: with any
  other status, known or not, it goes on to compare the versions, returning success when
  they are equal and starting the upgrade when they differ.
\<close>

theorem ledger_values:
  "(fs sf = None \<longrightarrow> read_status fs sf = Inr []) \<and>
   (\<forall>c. fs sf = Some (File c) \<longrightarrow> read_status fs sf = Inr (TrimSpace c)) \<and>
   (\<forall>s1 p. prepare w path v s = (s1, Inr p) \<longrightarrow>
      read_status (files s1) (statusFile p) = Inr (status p) \<and>
      (status p \<noteq> ''started'' \<longrightarrow>
         maybeUpgradePostgres w path v s =
           (if oldVersion p = v then (s1, None) else upgrade w path v p s1)))"
proof (intro conjI allI impI)
  assume "fs sf = None"
  then show "read_status fs sf = Inr []" by (simp add: read_status_def ReadFile_def)
next
  fix c assume "fs sf = Some (File c)"
  then show "read_status fs sf = Inr (TrimSpace c)" by (simp add: read_status_def ReadFile_def)
next
  fix s1 p assume "prepare w path v s = (s1, Inr p)"
  from prepare_Inr [OF this] show "read_status (files s1) (statusFile p) = Inr (status p)"
    by blast
next
  fix s1 p assume "prepare w path v s = (s1, Inr p)" and "status p \<noteq> ''started''"
  then show "maybeUpgradePostgres w path v s =
           (if oldVersion p = v then (s1, None) else upgrade w path v p s1)"
    by (simp add: maybeUpgradePostgres_def)
qed


theorem ledger_values_witness:
  "ex_files ''/data/.9.6-to-11-upgrade/status'' = None \<and>
   read_status ex_files ''/data/.9.6-to-11-upgrade/status'' = Inr [] \<and>
   read_status (files ex_garbage) ''/data/.9.6-to-11-upgrade/status'' = Inr ''garbage'' \<and>
   snd (prepare ex_world ''/data/postgresql'' ''11'' ex_garbage) = Inr (ex_prep ''garbage'') \<and>
   maybeUpgradePostgres ex_world ''/data/postgresql'' ''11'' ex_garbage =
     upgrade ex_world ''/data/postgresql'' ''11'' (ex_prep ''garbage'')
       (fst (prepare ex_world ''/data/postgresql'' ''11'' ex_garbage))"
proof -
  have n: "ex_files ''/data/.9.6-to-11-upgrade/status'' = None"
    by (simp add: ex_files_def)
  have g: "files ex_garbage ''/data/.9.6-to-11-upgrade/status'' = Some (File ''garbage'')"
    by (simp add: ex_garbage_def)
  have t: "TrimSpace ''garbage'' = ''garbage''"
    by (simp add: TrimSpace_def isSpace_def)
  have p0: "snd (prepare ex_world ''/data/postgresql'' ''11'' ex_garbage) = Inr (ex_prep ''garbage'')"
    by code_simp
  then have h: "prepare ex_world ''/data/postgresql'' ''11'' ex_garbage =
      (fst (prepare ex_world ''/data/postgresql'' ''11'' ex_garbage), Inr (ex_prep ''garbage''))"
    by (simp add: prod_eq_iff)
  have ns: "status (ex_prep ''garbage'') \<noteq> ''started''" "oldVersion (ex_prep ''garbage'') \<noteq> ''11''"
    by (simp_all add: ex_prep_def)
  from ledger_values [of ex_files "''/data/.9.6-to-11-upgrade/status''"] n
  have a: "read_status ex_files ''/data/.9.6-to-11-upgrade/status'' = Inr []" by blast
  from ledger_values [of "files ex_garbage" "''/data/.9.6-to-11-upgrade/status''"] g t
  have b: "read_status (files ex_garbage) ''/data/.9.6-to-11-upgrade/status'' = Inr ''garbage''"
    by simp
  from ledger_values [of ex_files "''x''" ex_world "''/data/postgresql''" "''11''" ex_garbage] h ns
  have c: "maybeUpgradePostgres ex_world ''/data/postgresql'' ''11'' ex_garbage =
     upgrade ex_world ''/data/postgresql'' ''11'' (ex_prep ''garbage'')
       (fst (prepare ex_world ''/data/postgresql'' ''11'' ex_garbage))"
    by simp
  from n a b c p0 show ?thesis by simp
qed

text \<open>
  C6, as stated, fails: in a run of the example installation the version marker is read
  first, the upgrade directory, absent before, is created fifth, and the status file is
  read only sixth.
\<close>

theorem status_check_position_counterexample:
  "new_events ex_state (fst (maybeUpgradePostgres ex_world ''/data/postgresql'' ''11'' ex_state)) ! 0
     = ReadFileEv ''/data/postgresql/PG_VERSION'' \<and>
   new_events ex_state (fst (maybeUpgradePostgres ex_world ''/data/postgresql'' ''11'' ex_state)) ! 4
     = MkdirAllEv ''/data/.9.6-to-11-upgrade'' \<and>
   new_events ex_state (fst (maybeUpgradePostgres ex_world ''/data/postgresql'' ''11'' ex_state)) ! 5
     = ReadFileEv ''/data/.9.6-to-11-upgrade/status'' \<and>
   files ex_state ''/data/.9.6-to-11-upgrade'' = None \<and>
   files (fst (prepare ex_world ''/data/postgresql'' ''11'' ex_state)) ''/data/.9.6-to-11-upgrade''
     = Some Dir"
  by code_simp

text \<open>
  C6, amended. Every run starts by reading the version marker. The status is looked at
  after the version marker, the container id, the Docker client, the host mount point and
  the creation of the upgrade directory, as the sixth action; every action that is not
  such a probe (a log line, a file write, a call for the helper container, a command)
  comes after it.
\<close>

theorem status_check_position:
  assumes "maybeUpgradePostgres w path v s = (s', r)"
  shows "(\<exists>rest. new_events s s' = ReadFileEv (filepath_Join w path ''PG_VERSION'') # rest) \<and>
         (\<forall>i<length (new_events s s'). \<not> is_probe (new_events s s' ! i) \<longrightarrow>
            6 \<le> i \<and>
            (\<exists>cid s1 p. prepare w path v s = (s1, Inr p) \<and>
               take 6 (new_events s s') =
                 [ReadFileEv (filepath_Join w path ''PG_VERSION''),
                  ReadFileEv ''/proc/self/cgroup'', NewClientEv, InspectEv cid,
                  MkdirAllEv (upgradeDir p), ReadFileEv (statusFile p)]))"
proof -
  obtain s1 pr where pr: "prepare w path v s = (s1, pr)" by (cases "prepare w path v s")
  show ?thesis
  proof (cases pr)
    case (Inl err)
    from prepare_any [OF pr] obtain evs where
      pa: "trace s1 = trace s @ ReadFileEv (filepath_Join w path ''PG_VERSION'') # evs"
          "\<forall>x\<in>set evs. is_probe x"
      by blast
    from Inl pr assms have "s' = s1" by (auto simp: maybeUpgradePostgres_def)
    with pa(1) have ne: "new_events s s' = ReadFileEv (filepath_Join w path ''PG_VERSION'') # evs"
      by (simp add: new_events_append)
    with pa(2) have "\<forall>x\<in>set (new_events s s'). is_probe x" by simp
    then have "\<forall>i<length (new_events s s'). is_probe (new_events s s' ! i)" by simp
    with ne show ?thesis by simp
  next
    case (Inr p)
    with pr have pp: "prepare w path v s = (s1, Inr p)" by simp
    from prepare_Inr [OF pp] obtain cid where
      t1: "trace s1 = trace s @
             [ReadFileEv (filepath_Join w path ''PG_VERSION''),
              ReadFileEv ''/proc/self/cgroup'', NewClientEv, InspectEv cid,
              MkdirAllEv (upgradeDir p), ReadFileEv (statusFile p)]"
      by blast
    let ?six = "[ReadFileEv (filepath_Join w path ''PG_VERSION''),
              ReadFileEv ''/proc/self/cgroup'', NewClientEv, InspectEv cid,
              MkdirAllEv (upgradeDir p), ReadFileEv (statusFile p)]"
    from after_prepare [OF pp assms] obtain X where "trace s' = trace s1 @ X" by blast
    with t1 have ne: "new_events s s' = ?six @ X" by (simp add: new_events_append)
    have six: "\<forall>x\<in>set ?six. is_probe x" by simp
    have "\<forall>i<length (new_events s s'). \<not> is_probe (new_events s s' ! i) \<longrightarrow> 6 \<le> i"
    proof (intro allI impI)
      fix i assume "i < length (new_events s s')" and np: "\<not> is_probe (new_events s s' ! i)"
      show "6 \<le> i"
      proof (rule ccontr)
        assume "\<not> 6 \<le> i"
        then have "i < length ?six" by simp
        then have "(?six @ X) ! i \<in> set ?six"
          by (metis nth_append nth_mem)
        with six ne np show False by auto
      qed
    qed
    moreover from ne have "take 6 (new_events s s') = ?six" by simp
    ultimately show ?thesis using ne pp by auto
  qed
qed

theorem status_check_position_witness:
  "6 < length (new_events ex_state
          (fst (maybeUpgradePostgres ex_world ''/data/postgresql'' ''11'' ex_state))) \<and>
   \<not> is_probe (new_events ex_state
          (fst (maybeUpgradePostgres ex_world ''/data/postgresql'' ''11'' ex_state)) ! 6) \<and>
   (\<exists>cid s1 p. prepare ex_world ''/data/postgresql'' ''11'' ex_state = (s1, Inr p) \<and>
      take 6 (new_events ex_state
          (fst (maybeUpgradePostgres ex_world ''/data/postgresql'' ''11'' ex_state))) =
        [ReadFileEv (filepath_Join ex_world ''/data/postgresql'' ''PG_VERSION''),
         ReadFileEv ''/proc/self/cgroup'', NewClientEv, InspectEv cid,
         MkdirAllEv (upgradeDir p), ReadFileEv (statusFile p)])"
proof -
  have a: "6 < length (new_events ex_state
          (fst (maybeUpgradePostgres ex_world ''/data/postgresql'' ''11'' ex_state)))"
    by code_simp
  have b: "\<not> is_probe (new_events ex_state
          (fst (maybeUpgradePostgres ex_world ''/data/postgresql'' ''11'' ex_state)) ! 6)"
    by code_simp
  from status_check_position [where w = ex_world and path = "''/data/postgresql''" and v = "''11''"
      and s = ex_state, OF surjective_pairing] a b
  show ?thesis by blast
qed

section \<open>The helper container: properties\<close>

lemma upgrade_wait_err:
  assumes "upgrade w path v p s1 = (s', r)"
    and "ContainerWaitEv rid \<in> set (new_events s1 s')"
    and "ContainerWait w rid = WaitErr (Some e)"
  shows "r = Some (Wrap e ''failed to upgrade postgres'') \<and>
         files s' = (files s1)(statusFile p \<mapsto> File ''started'') \<and>
         (\<forall>x\<in>set (new_events s1 s'). \<not> is_exec x) \<and>
         (\<forall>c. ContainerLogsEv c \<notin> set (new_events s1 s'))"
proof -
  define m where "m = star @
        '' Sourcegraph is upgrading its internal database. Please don'' @ [CHR 0x27] @
        ''t interrupt this operation.''"
  define sa where "sa = emit (LogEv m) s1"
  let ?W = "WriteFileEv (statusFile p) ''started'' True"
  show ?thesis
  proof (cases "WriteFile w (files sa) (statusFile p) ''started''")
    case (Inl err)
    with assms(1) have "s' = emit (WriteFileEv (statusFile p) ''started'' False) sa"
      by (auto simp: upgrade_def Let_def sa_def m_def)
    then have "new_events s1 s' = [LogEv m, WriteFileEv (statusFile p) ''started'' False]"
      by (simp add: new_events_def sa_def)
    with assms(2) show ?thesis by simp
  next
    case (Inr fs')
    then have fs': "fs' = (files s1)(statusFile p \<mapsto> File ''started'')"
      using WriteFile_Inr [of w "files sa"] by (simp add: sa_def)
    define sb where "sb = emit ?W (sa\<lparr>files := fs'\<rparr>)"
    obtain s2 buf r2 where rcn: "run_container w v p sb = (s2, buf, r2)"
      by (metis prod_cases3)
    from run_container_any [OF rcn] obtain cevs where
      c: "files s2 = files sb" "trace s2 = trace sb @ cevs" "\<forall>x\<in>set cevs. is_container_op x"
      by blast
    have tb: "trace sb = trace s1 @ [LogEv m, ?W]" and fb: "files sb = fs'"
      by (simp_all add: sb_def sa_def)
    from c(2) have dr: "drop (length (trace sb)) (trace s2) = cevs" by simp
    have cx: "\<forall>x\<in>set cevs. \<not> is_exec x"
    proof
      fix x assume "x \<in> set cevs"
      with c(3) have "is_container_op x" by blast
      then show "\<not> is_exec x" by (cases x) simp_all
    qed
    show ?thesis
    proof (cases r2)
      case (Some err)
      with assms(1) Inr rcn have e: "s' = s2" "r = r2"
        by (auto simp: upgrade_def Let_def sa_def sb_def m_def)
      with c(2) tb have ne: "new_events s1 s' = [LogEv m, ?W] @ cevs"
        by (simp add: new_events_def)
      with assms(2) have "ContainerWaitEv rid \<in> set cevs" by simp
      with dr have "ContainerWaitEv rid \<in> set (drop (length (trace sb)) (trace s2))" by simp
      from run_container_wait_err [OF rcn this assms(3)] dr
      have "r2 = Some (Wrap e ''failed to upgrade postgres'')" "\<forall>c. ContainerLogsEv c \<notin> set cevs"
        by simp_all
      with e ne c(1) fb fs' cx show ?thesis by auto
    next
      case None
      with assms(1) Inr rcn have fin: "finalize w path v p (s2, buf) = (s', r)"
        by (auto simp: upgrade_def Let_def sa_def sb_def m_def)
      from finalize_cases [OF fin] obtain fevs where
        f: "trace s' = trace s2 @ fevs"
        "(fevs = map (\<lambda>c. ExecEv (upgradeDir p) c True) (swap_commands path v p)
                   @ [WriteFileEv (statusFile p) ''done'' (r = None)] \<and>
            (r = None \<longrightarrow> files s' (statusFile p) = Some (File ''done''))) \<or>
          (r \<noteq> None \<and> (\<forall>x\<in>set fevs. \<not> is_write x \<and> \<not> is_container_op x))"
        by blast
      from f(2) have "ContainerWaitEv rid \<notin> set fevs" by auto
      moreover from f(1) c(2) tb have "new_events s1 s' = [LogEv m, ?W] @ cevs @ fevs"
        by (simp add: new_events_def)
      ultimately have "ContainerWaitEv rid \<in> set cevs" using assms(2) by simp
      with dr have "ContainerWaitEv rid \<in> set (drop (length (trace sb)) (trace s2))" by simp
      from run_container_wait_err [OF rcn this assms(3)] None show ?thesis by simp
    qed
  qed
qed

text \<open>
  The path the wait does handle: if the wait for the helper container fails with an error
  of the container runtime, the routine returns that error wrapped as the failure of the
  upgrade, without fetching the logs of the container; the ledger reads \<open>started\<close> when it
  returns, and no command has been run, so the old data directory has not been renamed.
\<close>

lemma wait_error_aborts:
  assumes "maybeUpgradePostgres w path v s = (s', r)"
    and "ContainerWaitEv rid \<in> set (new_events s s')"
    and "ContainerWait w rid = WaitErr (Some e)"
  shows "r = Some (Wrap e ''failed to upgrade postgres'') \<and>
         (\<exists>sf. ledger_file w path v (files s) = Some sf \<and>
               read_status (files s') sf = Inr ''started'') \<and>
         (\<forall>x\<in>set (new_events s s'). \<not> is_exec x) \<and>
         (\<forall>c. ContainerLogsEv c \<notin> set (new_events s s'))"
proof -
  obtain s1 pr where pr: "prepare w path v s = (s1, pr)" by (cases "prepare w path v s")
  from prepare_any [OF pr] obtain pevs where
    pa: "trace s1 = trace s @ ReadFileEv (filepath_Join w path ''PG_VERSION'') # pevs"
        "\<forall>x\<in>set pevs. is_probe x"
    by blast
  let ?P = "ReadFileEv (filepath_Join w path ''PG_VERSION'') # pevs"
  have P: "\<forall>x\<in>set ?P. is_probe x" using pa(2) by simp
  have Pw: "ContainerWaitEv rid \<notin> set ?P" using P by fastforce
  show ?thesis
  proof (cases pr)
    case (Inl err)
    with pr assms(1) have "s' = s1" by (auto simp: maybeUpgradePostgres_def)
    with pa(1) have "new_events s s' = ?P" by (simp add: new_events_append)
    with assms(2) Pw show ?thesis by simp
  next
    case (Inr p)
    with pr have pp: "prepare w path v s = (s1, Inr p)" by simp
    show ?thesis
    proof (cases "status p = ''started''")
      case True
      with pp assms(1) have "report_interrupted p v s1 = (s', r)"
        by (simp add: maybeUpgradePostgres_def)
      from report_interrupted_eq [OF this] obtain m1 m2 where
        "trace s' = trace s1 @ [LogEv m1, LogEv m2, LogEv (remediation p v)]" by blast
      with pa(1) have "new_events s s' = ?P @ [LogEv m1, LogEv m2, LogEv (remediation p v)]"
        by (simp add: new_events_append)
      with assms(2) Pw show ?thesis by simp
    next
      case False
      show ?thesis
      proof (cases "oldVersion p = v")
        case True
        with False pp assms(1) have "s' = s1" by (simp add: maybeUpgradePostgres_def)
        with pa(1) have "new_events s s' = ?P" by (simp add: new_events_append)
        with assms(2) Pw show ?thesis by simp
      next
        case nv: False
        with False pp assms(1) have up: "upgrade w path v p s1 = (s', r)"
          by (simp add: maybeUpgradePostgres_def)
        from after_prepare [OF pp assms(1)] obtain X where X: "trace s' = trace s1 @ X" by blast
        then have n1: "new_events s1 s' = X" by (simp add: new_events_append)
        from X pa(1) have n0: "new_events s s' = ?P @ X" by (simp add: new_events_append)
        with assms(2) Pw have "ContainerWaitEv rid \<in> set X" by simp
        with n1 have "ContainerWaitEv rid \<in> set (new_events s1 s')" by simp
        from upgrade_wait_err [OF up this assms(3)] n1 have
          u: "r = Some (Wrap e ''failed to upgrade postgres'')"
             "files s' = (files s1)(statusFile p \<mapsto> File ''started'')"
             "\<forall>x\<in>set X. \<not> is_exec x" "\<forall>c. ContainerLogsEv c \<notin> set X"
          by simp_all
        from u(2) have "read_status (files s') (statusFile p) = Inr ''started''"
          by (simp add: read_status_def ReadFile_def)
        with ledger_file_prep [OF pp] have
          "\<exists>sf. ledger_file w path v (files s) = Some sf \<and> read_status (files s') sf = Inr ''started''"
          by simp
        moreover from P u(3) n0 have "\<forall>x\<in>set (new_events s s'). \<not> is_exec x"
          by (auto dest: probe_kinds)
        moreover from P u(4) n0 have "\<forall>c. ContainerLogsEv c \<notin> set (new_events s s')"
          by fastforce
        ultimately show ?thesis using u(1) by blast
      qed
    qed
  qed
qed


lemma wait_error_aborts_example:
  "ContainerWaitEv ''c1'' \<in> set (new_events ex_state
      (fst (maybeUpgradePostgres ex_wait_fails ''/data/postgresql'' ''11'' ex_state))) \<and>
   ContainerWait ex_wait_fails ''c1'' = WaitErr (Some (ErrOS ''connection reset'')) \<and>
   snd (maybeUpgradePostgres ex_wait_fails ''/data/postgresql'' ''11'' ex_state) =
     Some (Wrap (ErrOS ''connection reset'') ''failed to upgrade postgres'') \<and>
   (\<exists>sf. ledger_file ex_wait_fails ''/data/postgresql'' ''11'' (files ex_state) = Some sf \<and>
      read_status (files (fst (maybeUpgradePostgres ex_wait_fails ''/data/postgresql'' ''11'' ex_state)))
        sf = Inr ''started'') \<and>
   list_all (\<lambda>x. \<not> is_exec x) (new_events ex_state
      (fst (maybeUpgradePostgres ex_wait_fails ''/data/postgresql'' ''11'' ex_state)))"
proof -
  have h1: "ContainerWaitEv ''c1'' \<in> set (new_events ex_state
      (fst (maybeUpgradePostgres ex_wait_fails ''/data/postgresql'' ''11'' ex_state)))"
    by code_simp
  have h2: "ContainerWait ex_wait_fails ''c1'' = WaitErr (Some (ErrOS ''connection reset''))"
    by code_simp
  from wait_error_aborts [OF surjective_pairing h1 h2] h1 h2
  show ?thesis unfolding list_all_iff by blast
qed

text \<open>
  C2. The routine does not do what the claim says when the wait completes with a non-zero
  exit status: what is received from the status channel is dropped, so with exit status 1
  the run reports no error, fetches the logs, renames the old data directory, and ends
  with success and the ledger reading \<open>done\<close>, where the path for a failed wait above and
  every failing command abort.
\<close>

theorem nonzero_exit_status_ignored:
  "ContainerWait ex_exit1 ''c1'' = WaitStatus 1 \<and>
   snd (maybeUpgradePostgres ex_exit1 ''/data/postgresql'' ''11'' ex_state) = None \<and>
   ContainerLogsEv ''c1'' \<in> set (new_events ex_state
      (fst (maybeUpgradePostgres ex_exit1 ''/data/postgresql'' ''11'' ex_state))) \<and>
   ExecEv ''/data/.9.6-to-11-upgrade'' [''mv'', ''/data/postgresql'', ''/data/postgresql-9.6''] True
     \<in> set (new_events ex_state
      (fst (maybeUpgradePostgres ex_exit1 ''/data/postgresql'' ''11'' ex_state))) \<and>
   read_status (files (fst (maybeUpgradePostgres ex_exit1 ''/data/postgresql'' ''11'' ex_state)))
     ''/data/.9.6-to-11-upgrade/status'' = Inr ''done''"
  by code_simp

section \<open>The order of ledger writes and directory swap: properties\<close>

lemma container_op_kinds:
  "is_container_op e \<Longrightarrow> \<not> is_exec e \<and> \<not> is_write e"
  by (cases e) simp_all

lemma not_write_done: "\<not> is_write e \<Longrightarrow> e \<noteq> WriteFileEv sf c ok"
  by auto

lemma run_shape:
  assumes "maybeUpgradePostgres w path v s = (s', r)"
  shows "(\<forall>x\<in>set (new_events s s'). \<not> is_exec x \<and> (\<forall>sf ok. x \<noteq> WriteFileEv sf ''done'' ok)) \<or>
         (\<exists>p pre fevs.
            ledger_file w path v (files s) = Some (statusFile p) \<and>
            new_events s s' = pre @ fevs \<and>
            (\<forall>x\<in>set pre. \<not> is_exec x \<and> (\<forall>sf ok. x \<noteq> WriteFileEv sf ''done'' ok)) \<and>
            7 < length pre \<and> pre ! 7 = WriteFileEv (statusFile p) ''started'' True \<and>
            ((fevs = map (\<lambda>c. ExecEv (upgradeDir p) c True) (swap_commands path v p)
                       @ [WriteFileEv (statusFile p) ''done'' (r = None)] \<and>
              (r = None \<longrightarrow> files s' (statusFile p) = Some (File ''done''))) \<or>
             (r \<noteq> None \<and> (\<forall>x\<in>set fevs. \<not> is_write x))))"
    (is "?A \<or> ?B")
proof -
  obtain s1 pr where pr: "prepare w path v s = (s1, pr)" by (cases "prepare w path v s")
  from prepare_any [OF pr] obtain pevs where
    pa: "trace s1 = trace s @ ReadFileEv (filepath_Join w path ''PG_VERSION'') # pevs"
        "\<forall>x\<in>set pevs. is_probe x"
    by blast
  let ?P = "ReadFileEv (filepath_Join w path ''PG_VERSION'') # pevs"
  have P: "\<forall>x\<in>set ?P. \<not> is_exec x \<and> (\<forall>sf ok. x \<noteq> WriteFileEv sf ''done'' ok)"
    using pa(2) by (auto dest: probe_kinds)
  show ?thesis
  proof (cases pr)
    case (Inl err)
    with pr assms have "s' = s1" by (auto simp: maybeUpgradePostgres_def)
    with pa(1) have "new_events s s' = ?P" by (simp add: new_events_append)
    with P show ?thesis by simp
  next
    case (Inr p)
    with pr have pp: "prepare w path v s = (s1, Inr p)" by simp
    show ?thesis
    proof (cases "status p = ''started''")
      case True
      with pp assms have "report_interrupted p v s1 = (s', r)"
        by (simp add: maybeUpgradePostgres_def)
      from report_interrupted_eq [OF this] obtain m1 m2 where
        "trace s' = trace s1 @ [LogEv m1, LogEv m2, LogEv (remediation p v)]" by blast
      with pa(1) have "new_events s s' = ?P @ [LogEv m1, LogEv m2, LogEv (remediation p v)]"
        by (simp add: new_events_append)
      with P show ?thesis by auto
    next
      case False
      show ?thesis
      proof (cases "oldVersion p = v")
        case True
        with False pp assms have "s' = s1" by (simp add: maybeUpgradePostgres_def)
        with pa(1) have "new_events s s' = ?P" by (simp add: new_events_append)
        with P show ?thesis by simp
      next
        case nv: False
        with False pp assms have up: "upgrade w path v p s1 = (s', r)"
          by (simp add: maybeUpgradePostgres_def)
        from prepare_Inr [OF pp] obtain cid where
          six: "trace s1 = trace s @
             [ReadFileEv (filepath_Join w path ''PG_VERSION''),
              ReadFileEv ''/proc/self/cgroup'', NewClientEv, InspectEv cid,
              MkdirAllEv (upgradeDir p), ReadFileEv (statusFile p)]"
          by blast
        let ?six = "[ReadFileEv (filepath_Join w path ''PG_VERSION''),
              ReadFileEv ''/proc/self/cgroup'', NewClientEv, InspectEv cid,
              MkdirAllEv (upgradeDir p), ReadFileEv (statusFile p)]"
        let ?W = "WriteFileEv (statusFile p) ''started'' True"
        let ?ok = "\<lambda>x. \<not> is_exec x \<and> (\<forall>sf ok. x \<noteq> WriteFileEv sf ''done'' ok)"
        have S: "\<forall>x\<in>set ?six. ?ok x" by simp
        from upgrade_cases [OF up] obtain m evs where
          u: "trace s' = trace s1 @ LogEv m # evs"
          and cs: "(evs = [WriteFileEv (statusFile p) ''started'' False] \<and> r \<noteq> None \<and> files s' = files s1) \<or>
            (\<exists>cevs fevs. evs = ?W # cevs @ fevs \<and>
               (\<forall>x\<in>set cevs. is_container_op x) \<and>
               ((fevs = [] \<and> r \<noteq> None \<and> files s' = (files s1)(statusFile p \<mapsto> File ''started'')) \<or>
                (fevs = map (\<lambda>c. ExecEv (upgradeDir p) c True) (swap_commands path v p)
                   @ [WriteFileEv (statusFile p) ''done'' (r = None)] \<and>
                  (r = None \<longrightarrow> files s' (statusFile p) = Some (File ''done''))) \<or>
                (r \<noteq> None \<and> (\<forall>x\<in>set fevs. \<not> is_write x \<and> \<not> is_container_op x))))"
          by blast
        from u six have ne: "new_events s s' = ?six @ LogEv m # evs"
          by (simp add: new_events_append)
        from cs show ?thesis
        proof
          assume "evs = [WriteFileEv (statusFile p) ''started'' False] \<and> r \<noteq> None \<and> files s' = files s1"
          with ne have "?A" by simp
          then show ?thesis ..
        next
          assume "\<exists>cevs fevs. evs = ?W # cevs @ fevs \<and>
               (\<forall>x\<in>set cevs. is_container_op x) \<and>
               ((fevs = [] \<and> r \<noteq> None \<and> files s' = (files s1)(statusFile p \<mapsto> File ''started'')) \<or>
                (fevs = map (\<lambda>c. ExecEv (upgradeDir p) c True) (swap_commands path v p)
                   @ [WriteFileEv (statusFile p) ''done'' (r = None)] \<and>
                  (r = None \<longrightarrow> files s' (statusFile p) = Some (File ''done''))) \<or>
                (r \<noteq> None \<and> (\<forall>x\<in>set fevs. \<not> is_write x \<and> \<not> is_container_op x)))"
          then obtain cevs fevs where
            e: "evs = ?W # cevs @ fevs" and c: "\<forall>x\<in>set cevs. is_container_op x"
            and f: "(fevs = [] \<and> r \<noteq> None \<and> files s' = (files s1)(statusFile p \<mapsto> File ''started'')) \<or>
                (fevs = map (\<lambda>c. ExecEv (upgradeDir p) c True) (swap_commands path v p)
                   @ [WriteFileEv (statusFile p) ''done'' (r = None)] \<and>
                  (r = None \<longrightarrow> files s' (statusFile p) = Some (File ''done''))) \<or>
                (r \<noteq> None \<and> (\<forall>x\<in>set fevs. \<not> is_write x \<and> \<not> is_container_op x))"
            by blast
          let ?pre = "?six @ LogEv m # ?W # cevs"
          have C: "\<forall>x\<in>set cevs. ?ok x"
            using c by (auto dest: container_op_kinds)
          have pre: "\<forall>x\<in>set ?pre. ?ok x" using C by simp
          have n7: "7 < length ?pre" "?pre ! 7 = ?W" by simp_all
          from ne e have ne': "new_events s s' = ?pre @ fevs" by simp
          have lf: "ledger_file w path v (files s) = Some (statusFile p)"
            by (rule ledger_file_prep [OF pp])
          show ?thesis
          proof (cases "fevs = []")
            case True
            with ne' pre have "?A" by simp
            then show ?thesis ..
          next
            case False
            with f have "(fevs = map (\<lambda>c. ExecEv (upgradeDir p) c True) (swap_commands path v p)
                   @ [WriteFileEv (statusFile p) ''done'' (r = None)] \<and>
                  (r = None \<longrightarrow> files s' (statusFile p) = Some (File ''done''))) \<or>
                (r \<noteq> None \<and> (\<forall>x\<in>set fevs. \<not> is_write x))"
              by blast
            with lf ne' pre n7 have "?B" by blast
            then show ?thesis ..
          qed
        qed
      qed
    qed
  qed
qed

lemma started_before_actions:
  assumes "maybeUpgradePostgres w path v s = (s', r)"
  shows "(\<forall>x\<in>set (new_events s s'). \<not> is_exec x \<and> \<not> is_container_op x) \<or>
         (\<exists>(p::prep) pre rest.
            ledger_file w path v (files s) = Some (statusFile p) \<and>
            new_events s s' = pre @ rest \<and> length pre = 8 \<and>
            (\<forall>x\<in>set pre. \<not> is_exec x \<and> \<not> is_container_op x) \<and>
            pre ! 7 = WriteFileEv (statusFile p) ''started'' True)"
    (is "?A \<or> ?B")
proof -
  obtain s1 pr where pr: "prepare w path v s = (s1, pr)" by (cases "prepare w path v s")
  from prepare_any [OF pr] obtain pevs where
    pa: "trace s1 = trace s @ ReadFileEv (filepath_Join w path ''PG_VERSION'') # pevs"
        "\<forall>x\<in>set pevs. is_probe x"
    by blast
  let ?P = "ReadFileEv (filepath_Join w path ''PG_VERSION'') # pevs"
  have P: "\<forall>x\<in>set ?P. \<not> is_exec x \<and> \<not> is_container_op x"
    using pa(2) by (auto dest: probe_kinds)
  show ?thesis
  proof (cases pr)
    case (Inl err)
    with pr assms have "s' = s1" by (auto simp: maybeUpgradePostgres_def)
    with pa(1) have "new_events s s' = ?P" by (simp add: new_events_append)
    with P show ?thesis by simp
  next
    case (Inr p)
    with pr have pp: "prepare w path v s = (s1, Inr p)" by simp
    show ?thesis
    proof (cases "status p = ''started''")
      case True
      with pp assms have "report_interrupted p v s1 = (s', r)"
        by (simp add: maybeUpgradePostgres_def)
      from report_interrupted_eq [OF this] obtain m1 m2 where
        "trace s' = trace s1 @ [LogEv m1, LogEv m2, LogEv (remediation p v)]" by blast
      with pa(1) have "new_events s s' = ?P @ [LogEv m1, LogEv m2, LogEv (remediation p v)]"
        by (simp add: new_events_append)
      with P show ?thesis by auto
    next
      case False
      show ?thesis
      proof (cases "oldVersion p = v")
        case True
        with False pp assms have "s' = s1" by (simp add: maybeUpgradePostgres_def)
        with pa(1) have "new_events s s' = ?P" by (simp add: new_events_append)
        with P show ?thesis by simp
      next
        case nv: False
        with False pp assms have up: "upgrade w path v p s1 = (s', r)"
          by (simp add: maybeUpgradePostgres_def)
        from prepare_Inr [OF pp] obtain cid where
          six: "trace s1 = trace s @
             [ReadFileEv (filepath_Join w path ''PG_VERSION''),
              ReadFileEv ''/proc/self/cgroup'', NewClientEv, InspectEv cid,
              MkdirAllEv (upgradeDir p), ReadFileEv (statusFile p)]"
          by blast
        let ?six = "[ReadFileEv (filepath_Join w path ''PG_VERSION''),
              ReadFileEv ''/proc/self/cgroup'', NewClientEv, InspectEv cid,
              MkdirAllEv (upgradeDir p), ReadFileEv (statusFile p)]"
        let ?W = "WriteFileEv (statusFile p) ''started'' True"
        from upgrade_cases [OF up] obtain m evs where
          u: "trace s' = trace s1 @ LogEv m # evs"
          and cs: "(evs = [WriteFileEv (statusFile p) ''started'' False] \<and> r \<noteq> None \<and> files s' = files s1) \<or>
            (\<exists>cevs fevs. evs = ?W # cevs @ fevs \<and>
               (\<forall>x\<in>set cevs. is_container_op x) \<and>
               ((fevs = [] \<and> r \<noteq> None \<and> files s' = (files s1)(statusFile p \<mapsto> File ''started'')) \<or>
                (fevs = map (\<lambda>c. ExecEv (upgradeDir p) c True) (swap_commands path v p)
                   @ [WriteFileEv (statusFile p) ''done'' (r = None)] \<and>
                  (r = None \<longrightarrow> files s' (statusFile p) = Some (File ''done''))) \<or>
                (r \<noteq> None \<and> (\<forall>x\<in>set fevs. \<not> is_write x \<and> \<not> is_container_op x))))"
          by blast
        from u six have ne: "new_events s s' = ?six @ LogEv m # evs"
          by (simp add: new_events_append)
        from cs show ?thesis
        proof
          assume "evs = [WriteFileEv (statusFile p) ''started'' False] \<and> r \<noteq> None \<and> files s' = files s1"
          with ne have "?A" by simp
          then show ?thesis ..
        next
          assume "\<exists>cevs fevs. evs = ?W # cevs @ fevs \<and>
               (\<forall>x\<in>set cevs. is_container_op x) \<and>
               ((fevs = [] \<and> r \<noteq> None \<and> files s' = (files s1)(statusFile p \<mapsto> File ''started'')) \<or>
                (fevs = map (\<lambda>c. ExecEv (upgradeDir p) c True) (swap_commands path v p)
                   @ [WriteFileEv (statusFile p) ''done'' (r = None)] \<and>
                  (r = None \<longrightarrow> files s' (statusFile p) = Some (File ''done''))) \<or>
                (r \<noteq> None \<and> (\<forall>x\<in>set fevs. \<not> is_write x \<and> \<not> is_container_op x)))"
          then obtain rest where e: "evs = ?W # rest" by blast
          let ?pre = "?six @ [LogEv m, ?W]"
          have "?B"
          proof (intro exI conjI)
            show "ledger_file w path v (files s) = Some (statusFile p)"
              by (rule ledger_file_prep [OF pp])
            show "new_events s s' = ?pre @ rest" using ne e by simp
            show "length ?pre = 8" by simp
            show "\<forall>x\<in>set ?pre. \<not> is_exec x \<and> \<not> is_container_op x" by simp
            show "?pre ! 7 = WriteFileEv (statusFile p) ''started'' True" by simp
          qed
          then show ?thesis ..
        qed
      qed
    qed
  qed
qed

lemma swap_after_started:
  assumes "maybeUpgradePostgres w path v s = (s', r)"
  shows "(\<forall>i<length (new_events s s'). is_exec (new_events s s' ! i) \<longrightarrow>
            (\<exists>j<i. \<exists>sf. ledger_file w path v (files s) = Some sf \<and>
                new_events s s' ! j = WriteFileEv sf ''started'' True)) \<and>
         (\<forall>i<length (new_events s s'). \<forall>sf ok. new_events s s' ! i = WriteFileEv sf ''done'' ok \<longrightarrow>
            4 \<le> i \<and>
            (\<exists>dir old. take 4 (drop (i - 4) (new_events s s')) =
               [ExecEv dir [''mv'', path, path @ ''-'' @ old] True,
                ExecEv dir [''mv'', path @ ''-'' @ v, path] True,
                ExecEv dir [''chown'', ''-R'', ''postgres'', path] True,
                ExecEv dir [''su-exec'', ''postgres'', ''/postgres-optimize.sh'', path] True])) \<and>
         (r = None \<and> (\<exists>dir. ExecEv dir [''mv'', path @ ''-'' @ v, path] True \<in> set (new_events s s')) \<longrightarrow>
            (\<exists>sf. ledger_file w path v (files s) = Some sf \<and>
                read_status (files s') sf = Inr ''done'' \<and>
                read_status (files s') sf \<noteq> Inr ''started''))"
proof -
  let ?evs = "new_events s s'"
  let ?ok = "\<lambda>x. \<not> is_exec x \<and> (\<forall>sf ok. x \<noteq> WriteFileEv sf ''done'' ok)"
  from run_shape [OF assms] show ?thesis
  proof
    assume A: "\<forall>x\<in>set ?evs. ?ok x"
    then have "\<forall>i<length ?evs. ?ok (?evs ! i)" by simp
    moreover from A have "\<not> (\<exists>dir. ExecEv dir [''mv'', path @ ''-'' @ v, path] True \<in> set ?evs)"
      by fastforce
    ultimately show ?thesis by blast
  next
    assume "\<exists>p pre fevs.
            ledger_file w path v (files s) = Some (statusFile p) \<and>
            ?evs = pre @ fevs \<and>
            (\<forall>x\<in>set pre. ?ok x) \<and>
            7 < length pre \<and> pre ! 7 = WriteFileEv (statusFile p) ''started'' True \<and>
            ((fevs = map (\<lambda>c. ExecEv (upgradeDir p) c True) (swap_commands path v p)
                       @ [WriteFileEv (statusFile p) ''done'' (r = None)] \<and>
              (r = None \<longrightarrow> files s' (statusFile p) = Some (File ''done''))) \<or>
             (r \<noteq> None \<and> (\<forall>x\<in>set fevs. \<not> is_write x)))"
    then obtain p pre fevs where
      lf: "ledger_file w path v (files s) = Some (statusFile p)"
      and ev: "?evs = pre @ fevs"
      and pre: "\<forall>x\<in>set pre. ?ok x"
      and n7: "7 < length pre" "pre ! 7 = WriteFileEv (statusFile p) ''started'' True"
      and f: "(fevs = map (\<lambda>c. ExecEv (upgradeDir p) c True) (swap_commands path v p)
                       @ [WriteFileEv (statusFile p) ''done'' (r = None)] \<and>
              (r = None \<longrightarrow> files s' (statusFile p) = Some (File ''done''))) \<or>
             (r \<noteq> None \<and> (\<forall>x\<in>set fevs. \<not> is_write x))"
      by blast
    have in_pre: "\<And>i. i < length pre \<Longrightarrow> ?ok (?evs ! i)"
      using pre ev by (simp add: nth_append)
    have e7: "?evs ! 7 = WriteFileEv (statusFile p) ''started'' True"
      using n7 ev by (simp add: nth_append)
    have a: "\<forall>i<length ?evs. is_exec (?evs ! i) \<longrightarrow>
            (\<exists>j<i. \<exists>sf. ledger_file w path v (files s) = Some sf \<and>
                ?evs ! j = WriteFileEv sf ''started'' True)"
    proof (intro allI impI)
      fix i assume "i < length ?evs" and x: "is_exec (?evs ! i)"
      have "\<not> i < length pre" using in_pre x by blast
      with n7(1) have "7 < i" by simp
      with e7 lf show "\<exists>j<i. \<exists>sf. ledger_file w path v (files s) = Some sf \<and>
                ?evs ! j = WriteFileEv sf ''started'' True"
        by blast
    qed
    let ?four = "[ExecEv (upgradeDir p) [''mv'', path, path @ ''-'' @ oldVersion p] True,
                ExecEv (upgradeDir p) [''mv'', path @ ''-'' @ v, path] True,
                ExecEv (upgradeDir p) [''chown'', ''-R'', ''postgres'', path] True,
                ExecEv (upgradeDir p) [''su-exec'', ''postgres'', ''/postgres-optimize.sh'', path] True]"
    have four: "map (\<lambda>c. ExecEv (upgradeDir p) c True) (swap_commands path v p) = ?four"
      by (simp add: swap_commands_def)
    have b: "\<forall>i<length ?evs. \<forall>sf ok. ?evs ! i = WriteFileEv sf ''done'' ok \<longrightarrow>
            4 \<le> i \<and>
            (\<exists>dir old. take 4 (drop (i - 4) ?evs) =
               [ExecEv dir [''mv'', path, path @ ''-'' @ old] True,
                ExecEv dir [''mv'', path @ ''-'' @ v, path] True,
                ExecEv dir [''chown'', ''-R'', ''postgres'', path] True,
                ExecEv dir [''su-exec'', ''postgres'', ''/postgres-optimize.sh'', path] True])"
    proof (intro allI impI)
      fix i sf ok assume il: "i < length ?evs" and x: "?evs ! i = WriteFileEv sf ''done'' ok"
      have np: "\<not> i < length pre" using in_pre x by blast
      then have ge: "length pre \<le> i" by simp
      with ev x have fx: "fevs ! (i - length pre) = WriteFileEv sf ''done'' ok"
        by (simp add: nth_append)
      from il ev ge have kl: "i - length pre < length fevs" by simp
      then have mem: "WriteFileEv sf ''done'' ok \<in> set fevs"
        using fx by (metis nth_mem)
      from f mem have fe: "fevs = ?four @ [WriteFileEv (statusFile p) ''done'' (r = None)]"
        unfolding four by fastforce
      with kl have "i - length pre < 5" by simp
      moreover have "\<forall>k<4. (?four @ [WriteFileEv (statusFile p) ''done'' (r = None)]) ! k
                        \<noteq> WriteFileEv sf ''done'' ok"
        by (simp add: nth_append less_Suc_eq numeral_Bit0 numeral_eq_Suc nth_Cons')
      ultimately have "i - length pre = 4" using fx fe
        by (metis (no_types, lifting) less_Suc_eq numeral_eq_Suc pred_numeral_simps(2,3) semiring_norm(26,27))
      with ge have i: "i = length pre + 4" by simp
      with ev fe have "take 4 (drop (i - 4) ?evs) = ?four" by simp
      with i show "4 \<le> i \<and>
            (\<exists>dir old. take 4 (drop (i - 4) ?evs) =
               [ExecEv dir [''mv'', path, path @ ''-'' @ old] True,
                ExecEv dir [''mv'', path @ ''-'' @ v, path] True,
                ExecEv dir [''chown'', ''-R'', ''postgres'', path] True,
                ExecEv dir [''su-exec'', ''postgres'', ''/postgres-optimize.sh'', path] True])"
        by auto
    qed
    have c: "r = None \<and> (\<exists>dir. ExecEv dir [''mv'', path @ ''-'' @ v, path] True \<in> set ?evs) \<longrightarrow>
            (\<exists>sf. ledger_file w path v (files s) = Some sf \<and>
                read_status (files s') sf = Inr ''done'' \<and>
                read_status (files s') sf \<noteq> Inr ''started'')"
    proof
      assume "r = None \<and> (\<exists>dir. ExecEv dir [''mv'', path @ ''-'' @ v, path] True \<in> set ?evs)"
      with f have "files s' (statusFile p) = Some (File ''done'')" by blast
      then have "read_status (files s') (statusFile p) = Inr ''done''"
        by (simp add: read_status_def ReadFile_def)
      with lf show "\<exists>sf. ledger_file w path v (files s) = Some sf \<and>
                read_status (files s') sf = Inr ''done'' \<and>
                read_status (files s') sf \<noteq> Inr ''started''"
        by simp
    qed
    from a b c show ?thesis by blast
  qed
qed

text \<open>
  C3. In every run of the upgrade routine, every call for the helper container (pull,
  create, start, wait, logs) and every command (and so any rename or change of the old
  data directory, which the helper has mounted) comes after the ledger has been written
  with \<open>started\<close>; the ledger is written with \<open>done\<close> only directly after the two renames,
  the change of owner and the optimization script have all succeeded; and a run that ends
  without error after the new data directory has been moved into place leaves the ledger
  reading \<open>done\<close>, not \<open>started\<close>.
\<close>

theorem ledger_discipline:
  assumes "maybeUpgradePostgres w path v s = (s', r)"
  shows "(\<forall>i<length (new_events s s').
            is_exec (new_events s s' ! i) \<or> is_container_op (new_events s s' ! i) \<longrightarrow>
            (\<exists>j<i. \<exists>sf. ledger_file w path v (files s) = Some sf \<and>
                new_events s s' ! j = WriteFileEv sf ''started'' True)) \<and>
         (\<forall>i<length (new_events s s'). \<forall>sf ok. new_events s s' ! i = WriteFileEv sf ''done'' ok \<longrightarrow>
            4 \<le> i \<and>
            (\<exists>dir old. take 4 (drop (i - 4) (new_events s s')) =
               [ExecEv dir [''mv'', path, path @ ''-'' @ old] True,
                ExecEv dir [''mv'', path @ ''-'' @ v, path] True,
                ExecEv dir [''chown'', ''-R'', ''postgres'', path] True,
                ExecEv dir [''su-exec'', ''postgres'', ''/postgres-optimize.sh'', path] True])) \<and>
         (r = None \<and> (\<exists>dir. ExecEv dir [''mv'', path @ ''-'' @ v, path] True \<in> set (new_events s s')) \<longrightarrow>
            (\<exists>sf. ledger_file w path v (files s) = Some sf \<and>
                read_status (files s') sf = Inr ''done'' \<and>
                read_status (files s') sf \<noteq> Inr ''started''))"
proof -
  let ?evs = "new_events s s'"
  let ?act = "\<lambda>x. is_exec x \<or> is_container_op x"
  have a: "\<forall>i<length ?evs. ?act (?evs ! i) \<longrightarrow>
            (\<exists>j<i. \<exists>sf. ledger_file w path v (files s) = Some sf \<and>
                ?evs ! j = WriteFileEv sf ''started'' True)"
    using started_before_actions [OF assms]
  proof
    assume "\<forall>x\<in>set ?evs. \<not> is_exec x \<and> \<not> is_container_op x"
    then have "\<forall>i<length ?evs. \<not> ?act (?evs ! i)" by simp
    then show ?thesis by blast
  next
    assume "\<exists>(p::prep) pre rest.
            ledger_file w path v (files s) = Some (statusFile p) \<and>
            ?evs = pre @ rest \<and> length pre = 8 \<and>
            (\<forall>x\<in>set pre. \<not> is_exec x \<and> \<not> is_container_op x) \<and>
            pre ! 7 = WriteFileEv (statusFile p) ''started'' True"
    then obtain p :: prep and pre rest where
      lf: "ledger_file w path v (files s) = Some (statusFile p)"
      and ev: "?evs = pre @ rest" and len: "length pre = 8"
      and pre: "\<forall>x\<in>set pre. \<not> is_exec x \<and> \<not> is_container_op x"
      and p7: "pre ! 7 = WriteFileEv (statusFile p) ''started'' True"
      by blast
    have in_pre: "\<And>i. i < length pre \<Longrightarrow> \<not> ?act (?evs ! i)"
      using pre ev by (simp add: nth_append)
    have e7: "?evs ! 7 = WriteFileEv (statusFile p) ''started'' True"
      using p7 len ev by (simp add: nth_append)
    show ?thesis
    proof (intro allI impI)
      fix i assume "i < length ?evs" and x: "?act (?evs ! i)"
      have "\<not> i < length pre" using in_pre x by blast
      with len have "7 < i" by simp
      with e7 lf show "\<exists>j<i. \<exists>sf. ledger_file w path v (files s) = Some sf \<and>
                ?evs ! j = WriteFileEv sf ''started'' True"
        by blast
    qed
  qed
  note bc = swap_after_started [OF assms, THEN conjunct2]
  from a bc show ?thesis by blast
qed

theorem ledger_discipline_witness:
  "is_container_op (new_events ex_state
      (fst (maybeUpgradePostgres ex_world ''/data/postgresql'' ''11'' ex_state)) ! 8) \<and>
   (\<exists>j<8. \<exists>sf. ledger_file ex_world ''/data/postgresql'' ''11'' (files ex_state) = Some sf \<and>
      new_events ex_state
        (fst (maybeUpgradePostgres ex_world ''/data/postgresql'' ''11'' ex_state)) ! j =
      WriteFileEv sf ''started'' True) \<and>
   13 < length (new_events ex_state
      (fst (maybeUpgradePostgres ex_world ''/data/postgresql'' ''11'' ex_state))) \<and>
   is_exec (new_events ex_state
      (fst (maybeUpgradePostgres ex_world ''/data/postgresql'' ''11'' ex_state)) ! 13) \<and>
   (\<exists>j<13. \<exists>sf. ledger_file ex_world ''/data/postgresql'' ''11'' (files ex_state) = Some sf \<and>
      new_events ex_state
        (fst (maybeUpgradePostgres ex_world ''/data/postgresql'' ''11'' ex_state)) ! j =
      WriteFileEv sf ''started'' True) \<and>
   new_events ex_state
      (fst (maybeUpgradePostgres ex_world ''/data/postgresql'' ''11'' ex_state)) ! 17 =
     WriteFileEv ''/data/.9.6-to-11-upgrade/status'' ''done'' True \<and>
   (\<exists>dir old. take 4 (drop (17 - 4) (new_events ex_state
        (fst (maybeUpgradePostgres ex_world ''/data/postgresql'' ''11'' ex_state)))) =
      [ExecEv dir [''mv'', ''/data/postgresql'', ''/data/postgresql'' @ ''-'' @ old] True,
       ExecEv dir [''mv'', ''/data/postgresql'' @ ''-'' @ ''11'', ''/data/postgresql''] True,
       ExecEv dir [''chown'', ''-R'', ''postgres'', ''/data/postgresql''] True,
       ExecEv dir [''su-exec'', ''postgres'', ''/postgres-optimize.sh'', ''/data/postgresql''] True]) \<and>
   snd (maybeUpgradePostgres ex_world ''/data/postgresql'' ''11'' ex_state) = None \<and>
   (\<exists>sf. ledger_file ex_world ''/data/postgresql'' ''11'' (files ex_state) = Some sf \<and>
      read_status (files (fst (maybeUpgradePostgres ex_world ''/data/postgresql'' ''11'' ex_state)))
        sf = Inr ''done'')"
proof -
  let ?evs = "new_events ex_state
      (fst (maybeUpgradePostgres ex_world ''/data/postgresql'' ''11'' ex_state))"
  note T = ledger_discipline [where w = ex_world and path = "''/data/postgresql''"
      and v = "''11''" and s = ex_state, OF surjective_pairing]
  have h13: "13 < length ?evs" "is_exec (?evs ! 13)"
    by code_simp+
  have h8: "8 < length ?evs" "is_container_op (?evs ! 8)"
    by code_simp+
  from T h8 have a8: "\<exists>j<8. \<exists>sf.
      ledger_file ex_world ''/data/postgresql'' ''11'' (files ex_state) = Some sf \<and>
      ?evs ! j = WriteFileEv sf ''started'' True"
    by blast
  have h17: "17 < length ?evs"
    "?evs ! 17 = WriteFileEv ''/data/.9.6-to-11-upgrade/status'' ''done'' True"
    by code_simp+
  have hr: "snd (maybeUpgradePostgres ex_world ''/data/postgresql'' ''11'' ex_state) = None"
    "ExecEv ''/data/.9.6-to-11-upgrade'' [''mv'', ''/data/postgresql'' @ ''-'' @ ''11'',
       ''/data/postgresql''] True \<in> set ?evs"
    by code_simp+
  from T h13 have a: "\<exists>j<13. \<exists>sf.
      ledger_file ex_world ''/data/postgresql'' ''11'' (files ex_state) = Some sf \<and>
      ?evs ! j = WriteFileEv sf ''started'' True"
    by blast
  from T h17 have b: "\<exists>dir old. take 4 (drop (17 - 4) ?evs) =
      [ExecEv dir [''mv'', ''/data/postgresql'', ''/data/postgresql'' @ ''-'' @ old] True,
       ExecEv dir [''mv'', ''/data/postgresql'' @ ''-'' @ ''11'', ''/data/postgresql''] True,
       ExecEv dir [''chown'', ''-R'', ''postgres'', ''/data/postgresql''] True,
       ExecEv dir [''su-exec'', ''postgres'', ''/postgres-optimize.sh'', ''/data/postgresql''] True]"
    by blast
  from T hr have c: "\<exists>sf. ledger_file ex_world ''/data/postgresql'' ''11'' (files ex_state) = Some sf \<and>
      read_status (files (fst (maybeUpgradePostgres ex_world ''/data/postgresql'' ''11'' ex_state)))
        sf = Inr ''done''"
    by blast
  from h8 a8 h13 h17 hr(1) a b c show ?thesis by blast
qed

section \<open>Setting up the database: properties\<close>

lemma procfile_tail_eq:
  "procfile_tail w path s = (s', r) \<Longrightarrow> trace s' = trace s \<and> files s' = files s \<and> (\<exists>l. r = Inr l)"
  by (auto simp: procfile_tail_def Let_def)

lemma RemoveAll_below: "below p q \<Longrightarrow> RemoveAll fs p q = None"
  by (simp add: RemoveAll_def)

lemma below_refl: "below p p"
  by (simp add: below_def)

lemma init_database_cases:
  assumes "init_database w path s4 = (s', r)"
  shows "(\<exists>l. r = Inr l \<and> trace s' = trace s4 @ map (\<lambda>c. ExecEv [] c True) (init_commands path)) \<or>
         (\<exists>err Z. r = Inl err \<and> trace s' = trace s4 @ Z @ [RemoveAllEv path] \<and>
            (\<forall>q. below path q \<longrightarrow> files s' q = None) \<and> environ s' = environ s4)"
proof -
  obtain s5 out5 r5 where
    f5: "foldl (\<lambda>e argv. Command w False [] argv e) (s4, [], None) (init_commands path) = (s5, out5, r5)"
    by (metis prod_cases3)
  note rc5 = run_commands [OF f5]
  show ?thesis
  proof (cases r5)
    case None
    with assms f5 have "procfile_tail w path s5 = (s', r)"
      by (simp add: init_database_def)
    from procfile_tail_eq [OF this] rc5 None show ?thesis by auto
  next
    case (Some err5)
    with assms f5 have
      s': "s' = emit (RemoveAllEv path)
                  ((emit (LogEv (Sprintf (''Setting up postgres failed:'' @ [newline]
                                   @ ''%s'') [out5])) s5)
                    \<lparr>files := RemoveAll (files s5) path\<rparr>)"
      and r: "r = Inl err5"
      by (simp_all add: init_database_def Let_def)
    from rc5 obtain Z where Z: "trace s5 = trace s4 @ Z" and e5: "environ s5 = environ s4" by auto
    from s' Z have "trace s' = trace s4 @ (Z @ [LogEv (Sprintf (''Setting up postgres failed:''
                       @ [newline] @ ''%s'') [out5])]) @ [RemoveAllEv path]"
      by simp
    moreover from s' have "\<forall>q. below path q \<longrightarrow> files s' q = None"
      by (simp add: RemoveAll_below)
    moreover from s' e5 have "environ s' = environ s4" by simp
    ultimately show ?thesis using r by blast
  qed
qed

text \<open>
  C10. When \<open>maybePostgresProcFile\<close> finds the data directory missing and one of the
  commands that follow (the initialization sequence) fails, it returns the error, its last
  action is the removal of the data directory, nothing is left at or below that path, and
  the environment is unchanged; a later \<open>os.Stat\<close> of the path reports again that it does
  not exist, which is the test that selects the initialization.
\<close>

theorem failed_init_removes_data_dir:
  assumes "maybePostgresProcFile w s = (s', r)"
    and "take 3 (new_events s s') =
           [ExecEv [] [''mkdir'', ''-p'', ''/run/postgresql''] True,
            ExecEv [] [''chown'', ''-R'', ''postgres'', ''/run/postgresql''] True,
            StatEv path (Some e)]"
    and "IsNotExist e"
    and "ExecEv d c False \<in> set (drop 3 (new_events s s'))"
  shows "(\<exists>err. r = Inl err) \<and>
         last (new_events s s') = RemoveAllEv path \<and>
         (\<forall>q. below path q \<longrightarrow> files s' q = None) \<and>
         Stat (files s') path = Some (ErrNotExist path) \<and>
         environ s' = environ s"
proof -
  let ?rundir = "[[''mkdir'', ''-p'', ''/run/postgresql''],
                [''chown'', ''-R'', ''postgres'', ''/run/postgresql'']]"
  have cfg: "\<not> (environ s ''PGHOST'' \<noteq> [] \<or> environ s ''PGDATASOURCE'' \<noteq> [])"
  proof
    assume "environ s ''PGHOST'' \<noteq> [] \<or> environ s ''PGDATASOURCE'' \<noteq> []"
    with assms(1) have "s' = s" by (simp add: maybePostgresProcFile_def)
    then have "new_events s s' = []" by (simp add: new_events_def)
    with assms(2) show False by simp
  qed
  obtain s1 out1 r1 where
    f1: "foldl (\<lambda>e argv. Command w False [] argv e) (s, [], None) ?rundir = (s1, out1, r1)"
    by (metis prod_cases3)
  note rc1 = run_commands [OF f1]
  have r1: "r1 = None"
  proof (rule ccontr)
    assume "r1 \<noteq> None"
    then obtain err where e1: "r1 = Some err" by blast
    with rc1 have "\<exists>k<length ?rundir.
      trace s1 = trace s @ map (\<lambda>c. ExecEv [] c True) (take k ?rundir) @ [ExecEv [] (?rundir ! k) False]"
      by blast
    then obtain k where k: "k < length ?rundir"
      "trace s1 = trace s @ map (\<lambda>c. ExecEv [] c True) (take k ?rundir) @ [ExecEv [] (?rundir ! k) False]"
      by blast
    from assms(1) cfg f1 e1 have
      "s' = emit (LogEv (Sprintf (''Setting up postgres failed:'' @ [newline] @ ''%s'') [out1])) s1"
      by (simp add: maybePostgresProcFile_def)
    with k(2) have "new_events s s' = map (\<lambda>c. ExecEv [] c True) (take k ?rundir)
        @ [ExecEv [] (?rundir ! k) False,
           LogEv (Sprintf (''Setting up postgres failed:'' @ [newline] @ ''%s'') [out1])]"
      by (simp add: new_events_def)
    moreover from k(1) have "k = 0 \<or> k = 1" by auto
    ultimately show False using assms(2) by auto
  qed
  with rc1 have t1: "trace s1 = trace s @ map (\<lambda>c. ExecEv [] c True) ?rundir"
    and e1: "environ s1 = environ s" by auto
  define path' where "path' = filepath_Join w (environ s1 ''DATA_DIR'') ''postgresql''"
  define s2 where "s2 = emit (StatEv path' (Stat (files s1) path')) s1"
  have t2: "trace s2 = trace s @ [ExecEv [] [''mkdir'', ''-p'', ''/run/postgresql''] True,
            ExecEv [] [''chown'', ''-R'', ''postgres'', ''/run/postgresql''] True,
            StatEv path' (Stat (files s1) path')]"
    using t1 by (simp add: s2_def)
  from assms(1) cfg f1 r1 have body:
    "(case Stat (files s1) path' of
          Some err \<Rightarrow>
            if \<not> IsNotExist err then (s2, Inl err)
            else init_database w path'
                   (emit (LogEv (star @
                     '' Sourcegraph is initializing the internal database... (may take 15-20 seconds)''))
                     (if verbose w
                         then emit (LogEv (Sprintf ''Setting up PostgreSQL at %s'' [path'])) s2
                         else s2))
        | None \<Rightarrow> existing_database w path' s2) = (s', r)"
    unfolding maybePostgresProcFile_def Let_def path'_def s2_def by (simp add: emit_def)
  have stat: "Stat (files s1) path' = Some e \<and> path' = path"
  proof (cases "Stat (files s1) path'")
    case None
    with body have ex: "existing_database w path' s2 = (s', r)" by simp
    obtain s3 out3 r3 where c3: "Command w False [] [''chown'', ''-R'', ''postgres'', path'] (s2, [], None) = (s3, out3, r3)"
      by (metis prod_cases3)
    from Command_None [OF c3] have tc: "trace s3 = trace s2 @ [ExecEv [] [''chown'', ''-R'', ''postgres'', path'] (r3 = None)]"
      by simp
    have "\<exists>X. trace s' = trace s3 @ X"
    proof (cases r3)
      case (Some err3)
      with ex c3 show ?thesis by (auto simp: existing_database_def)
    next
      case n3: None
      define version where "version = (if TrimSpace (environ s3 ''PG_VERSION'') = [] then ''11''
                                       else TrimSpace (environ s3 ''PG_VERSION''))"
      obtain s4 r4 where m: "maybeUpgradePostgres w path' version s3 = (s4, r4)"
        by (cases "maybeUpgradePostgres w path' version s3")
      obtain s1p pr where pr: "prepare w path' version s3 = (s1p, pr)"
        by (cases "prepare w path' version s3")
      from prepare_any [OF pr] obtain pevs where
        pa: "trace s1p = trace s3 @ ReadFileEv (filepath_Join w path' ''PG_VERSION'') # pevs"
        by blast
      have Y: "\<exists>Y. trace s4 = trace s3 @ Y"
      proof (cases pr)
        case (Inl err)
        with pr m have "s4 = s1p" by (auto simp: maybeUpgradePostgres_def)
        with pa show ?thesis by simp
      next
        case (Inr p)
        with pr have "prepare w path' version s3 = (s1p, Inr p)" by simp
        from after_prepare [OF this m] pa show ?thesis by auto
      qed
      have "trace s' = trace s4"
      proof (cases r4)
        case None
        with ex c3 n3 m have "procfile_tail w path' s4 = (s', r)"
          by (simp add: existing_database_def Let_def version_def)
        from procfile_tail_eq [OF this] show ?thesis by simp
      next
        case (Some err4)
        with ex c3 n3 m have "s' = s4"
          by (simp add: existing_database_def Let_def version_def)
        then show ?thesis by simp
      qed
      with Y show ?thesis by simp
    qed
    with tc t2 None have "take 3 (new_events s s') =
       [ExecEv [] [''mkdir'', ''-p'', ''/run/postgresql''] True,
            ExecEv [] [''chown'', ''-R'', ''postgres'', ''/run/postgresql''] True,
            StatEv path' None]"
      by (auto simp: new_events_def)
    with assms(2) show ?thesis by simp
  next
    case (Some err)
    have "\<exists>X. trace s' = trace s2 @ X"
    proof (cases "IsNotExist err")
      case False
      with body Some have "s' = s2" by simp
      then show ?thesis by simp
    next
      case True
      with body Some have "init_database w path'
                   (emit (LogEv (star @
                     '' Sourcegraph is initializing the internal database... (may take 15-20 seconds)''))
                     (if verbose w
                         then emit (LogEv (Sprintf ''Setting up PostgreSQL at %s'' [path'])) s2
                         else s2)) = (s', r)"
        by simp
      from init_database_cases [OF this] show ?thesis
        by (cases "verbose w") auto
    qed
    with t2 Some have "take 3 (new_events s s') =
       [ExecEv [] [''mkdir'', ''-p'', ''/run/postgresql''] True,
            ExecEv [] [''chown'', ''-R'', ''postgres'', ''/run/postgresql''] True,
            StatEv path' (Some err)]"
      by (auto simp: new_events_def)
    with assms(2) Some show ?thesis by simp
  qed
  define s4 where "s4 = emit (LogEv (star @
                     '' Sourcegraph is initializing the internal database... (may take 15-20 seconds)''))
                     (if verbose w
                         then emit (LogEv (Sprintf ''Setting up PostgreSQL at %s'' [path'])) s2
                         else s2)"
  from stat have st: "Stat (files s1) path' = Some e" and pe: "path' = path" by blast+
  have ini: "init_database w path' s4 = (s', r)"
  proof -
    from body st have "(if \<not> IsNotExist e then (s2, Inl e) else init_database w path' s4) = (s', r)"
      by (simp only: option.case s4_def [symmetric])
    with assms(3) show ?thesis by simp
  qed
  obtain L where t4: "trace s4 = trace s2 @ L" and L: "\<forall>x\<in>set L. \<not> is_exec x"
    by (cases "verbose w") (auto simp: s4_def)
  have e4: "environ s4 = environ s" by (simp add: s4_def s2_def e1)
  from init_database_cases [OF ini] show ?thesis
  proof
    assume "\<exists>l. r = Inr l \<and> trace s' = trace s4 @ map (\<lambda>c. ExecEv [] c True) (init_commands path')"
    with t4 t2 have "drop 3 (new_events s s') = L @ map (\<lambda>c. ExecEv [] c True) (init_commands path')"
      by (auto simp: new_events_def)
    with assms(4) L have False by auto
    then show ?thesis ..
  next
    assume "\<exists>err Z. r = Inl err \<and> trace s' = trace s4 @ Z @ [RemoveAllEv path'] \<and>
            (\<forall>q. below path' q \<longrightarrow> files s' q = None) \<and> environ s' = environ s4"
    then obtain err Z where
      z: "r = Inl err" "trace s' = trace s4 @ Z @ [RemoveAllEv path']"
         "\<forall>q. below path' q \<longrightarrow> files s' q = None" "environ s' = environ s4"
      by blast
    from z(2) t4 t2 have "\<exists>Z'. new_events s s' = Z' @ [RemoveAllEv path']"
      by (simp add: new_events_def)
    then have la: "last (new_events s s') = RemoveAllEv path'" by auto
    from z(3) have "files s' path' = None" using below_refl by blast
    then have "Stat (files s') path' = Some (ErrNotExist path')" by (simp add: Stat_def)
    with z(1,3,4) la e4 pe show ?thesis by auto
  qed
qed

theorem failed_init_removes_data_dir_witness:
  "take 3 (new_events ex_fresh (fst (maybePostgresProcFile ex_initdb_fails ex_fresh))) =
     [ExecEv [] [''mkdir'', ''-p'', ''/run/postgresql''] True,
      ExecEv [] [''chown'', ''-R'', ''postgres'', ''/run/postgresql''] True,
      StatEv ''/var/postgresql'' (Some (ErrNotExist ''/var/postgresql''))] \<and>
   ExecEv [] [''su-exec'', ''postgres'', ''initdb'', ''-D'', ''/var/postgresql'', ''--nosync''] False
     \<in> set (drop 3 (new_events ex_fresh (fst (maybePostgresProcFile ex_initdb_fails ex_fresh)))) \<and>
   (\<exists>err. snd (maybePostgresProcFile ex_initdb_fails ex_fresh) = Inl err) \<and>
   last (new_events ex_fresh (fst (maybePostgresProcFile ex_initdb_fails ex_fresh))) =
     RemoveAllEv ''/var/postgresql'' \<and>
   files (fst (maybePostgresProcFile ex_initdb_fails ex_fresh)) ''/var/postgresql/PG_VERSION'' = None \<and>
   Stat (files (fst (maybePostgresProcFile ex_initdb_fails ex_fresh))) ''/var/postgresql'' =
     Some (ErrNotExist ''/var/postgresql'')"
proof -
  have h1: "take 3 (new_events ex_fresh (fst (maybePostgresProcFile ex_initdb_fails ex_fresh))) =
     [ExecEv [] [''mkdir'', ''-p'', ''/run/postgresql''] True,
      ExecEv [] [''chown'', ''-R'', ''postgres'', ''/run/postgresql''] True,
      StatEv ''/var/postgresql'' (Some (ErrNotExist ''/var/postgresql''))]"
    by code_simp
  have h2: "IsNotExist (ErrNotExist ''/var/postgresql'')"
    by simp
  have h3: "ExecEv [] [''su-exec'', ''postgres'', ''initdb'', ''-D'', ''/var/postgresql'', ''--nosync'']
      False
     \<in> set (drop 3 (new_events ex_fresh (fst (maybePostgresProcFile ex_initdb_fails ex_fresh))))"
    by code_simp
  have b: "below ''/var/postgresql'' ''/var/postgresql/PG_VERSION''"
    by code_simp
  from failed_init_removes_data_dir [OF surjective_pairing h1 h2 h3] h1 h3 b
  show ?thesis by blast
qed

end
